theory Spec2Isabelle
  imports Complex_Main "HOL-Library.Word" "HOL-Library.Multiset"
begin

unbundle bit_operations_syntax

section \<open>Conventions of the embedding\<close>

text \<open>
  The retrieval code is TypeScript. Its values are modelled as follows.
  \<^item> A JavaScript string is a \<^typ>\<open>string\<close>: one \<^typ>\<open>char\<close> per UTF-16 code unit, so
    the texts covered are those whose code units lie below 256 (Latin-1).
  \<^item> Indices, lengths, \<open>chunkSize\<close>, \<open>overlap\<close> and \<open>limit\<close> are JavaScript numbers that
    hold integers below \<open>2 ^ 53\<close>: they are \<^typ>\<open>int\<close>, and their sums and differences are exact.
  \<^item> The single non-integer computation of the chunker, \<open>start + chunkSize * 0.7\<close>, is
    evaluated as IEEE-754 binary64 would: the product and the sum are each rounded to
    53 significant bits, ties to even.
  \<^item> An embedding vector is the list of the exact values of its components, a list of
    \<^typ>\<open>real\<close>; the vector of the hash provider and its norm are those of exact real
    arithmetic.
  \<^item> The scores of the search are doubles, with their infinities and NaN. How the host
    rounds and overflows is not fixed by the program: the four operations of the score
    are parameters, and what is proved of the search holds for every choice of them.
  \<^item> A rejected promise or a thrown exception is the left summand of \<open>error + 'a\<close>.
  \<^item> A loop that need not end takes fuel; running out of fuel is \<^const>\<open>None\<close>.
\<close>

section \<open>String and array primitives of the host language\<close>

text \<open>\<open>slice(start, end)\<close> of strings and arrays: a negative index counts from the end.\<close>

definition js_slice :: "'a list \<Rightarrow> int \<Rightarrow> int \<Rightarrow> 'a list" where
  "js_slice xs s e =
     (let n = int (length xs);
          from = (if s < 0 then max (n + s) 0 else min s n);
          to = (if e < 0 then max (n + e) 0 else min e n)
      in take (nat (to - from)) (drop (nat from) xs))"

text \<open>\<open>lastIndexOf(c)\<close>: the greatest index holding \<open>c\<close>, or \<open>-1\<close>.\<close>

fun lastIndexOf :: "'a list \<Rightarrow> 'a \<Rightarrow> int" where
  "lastIndexOf [] c = - 1"
| "lastIndexOf (x # xs) c =
     (let r = lastIndexOf xs c
      in if 0 \<le> r then r + 1 else if x = c then 0 else - 1)"

text \<open>
  White space as \<open>\s\<close> and \<open>trim()\<close> see it, among the code units below 256:
  tab, line feed, vertical tab, form feed, carriage return, space, no-break space.
\<close>

definition isWhiteSpace :: "char \<Rightarrow> bool" where
  "isWhiteSpace c = (let n = (of_char c :: nat) in (9 \<le> n \<and> n \<le> 13) \<or> n = 32 \<or> n = 160)"

definition trim :: "string \<Rightarrow> string" where
  "trim s = rev (dropWhile isWhiteSpace (rev (dropWhile isWhiteSpace s)))"

section \<open>The threshold \<open>start + chunkSize * 0.7\<close> in binary64\<close>

text \<open>
  A finite binary64 value is a pair \<open>(m, e)\<close> standing for \<open>m * 2 ^ e\<close>. The exponent range
  plays no role for the magnitudes at hand and is left out.
\<close>

type_synonym binary64 = "int \<times> int"

function bit_length :: "int \<Rightarrow> nat" where
  "bit_length n = (if n \<le> 0 then 0 else Suc (bit_length (n div 2)))"
  by pat_completeness auto
termination
  by (relation "measure nat") auto

declare bit_length.simps [simp del]

definition round_binary64 :: "binary64 \<Rightarrow> binary64" where
  "round_binary64 x =
     (case x of (m, e) \<Rightarrow>
        let k = bit_length \<bar>m\<bar>
        in if k \<le> 53 then (m, e)
           else let s = k - 53;
                    q = \<bar>m\<bar> div 2 ^ s;
                    r = \<bar>m\<bar> mod 2 ^ s;
                    h = 2 ^ (s - 1);
                    q' = (if h < r \<or> (r = h \<and> odd q) then q + 1 else q)
                in (sgn m * q', e + int s))"

definition b64_of_int :: "int \<Rightarrow> binary64" where
  "b64_of_int n = (n, 0)"

definition b64_mul :: "binary64 \<Rightarrow> binary64 \<Rightarrow> binary64" where
  "b64_mul a b = round_binary64 (fst a * fst b, snd a + snd b)"

definition b64_add :: "binary64 \<Rightarrow> binary64 \<Rightarrow> binary64" where
  "b64_add a b =
     (let e = min (snd a) (snd b)
      in round_binary64 (fst a * 2 ^ nat (snd a - e) + fst b * 2 ^ nat (snd b - e), e))"

definition b64_less :: "binary64 \<Rightarrow> binary64 \<Rightarrow> bool" where
  "b64_less a b =
     (let e = min (snd a) (snd b)
      in fst a * 2 ^ nat (snd a - e) < fst b * 2 ^ nat (snd b - e))"

text \<open>The literal \<open>0.7\<close> is the binary64 number \<open>6305039478318694 * 2 ^ -53\<close>.\<close>

definition b64_0_7 :: binary64 where
  "b64_0_7 = (6305039478318694, - 53)"

text \<open>The test \<open>lastBreak > start + chunkSize * 0.7\<close>.\<close>

definition beyond_threshold :: "int \<Rightarrow> int \<Rightarrow> int \<Rightarrow> bool" where
  "beyond_threshold lastBreak start chunkSize =
     b64_less (b64_add (b64_of_int start) (b64_mul (b64_of_int chunkSize) b64_0_7))
              (b64_of_int lastBreak)"

section \<open>The chunker\<close>

text \<open>
  One pass of the body of the \<open>while\<close> loop of \<open>chunkText\<close>, up to the chunk that is
  about to be trimmed and pushed: the raw window, cut after the last sentence end when
  the window stops before the end of the text and the test on \<open>lastBreak\<close> succeeds.
\<close>

definition window_end :: "string \<Rightarrow> int \<Rightarrow> int \<Rightarrow> int" where
  "window_end text chunkSize start = min (start + chunkSize) (int (length text))"

definition window_chunk :: "string \<Rightarrow> int \<Rightarrow> int \<Rightarrow> string" where
  "window_chunk text chunkSize start =
     (let end = window_end text chunkSize start;
          chunk = js_slice text start end
      in if end < int (length text) then
           let lastPeriod = lastIndexOf chunk (CHR ''.'');
               lastQuestion = lastIndexOf chunk (CHR ''?'');
               lastExclamation = lastIndexOf chunk (CHR ''!'');
               lastBreak = max (max lastPeriod lastQuestion) lastExclamation
           in if beyond_threshold lastBreak start chunkSize
              then js_slice chunk 0 (lastBreak + 1)
              else chunk
         else chunk)"

text \<open>
  The \<open>while (start < text.length)\<close> loop. Each round pushes the trimmed chunk and
  continues from \<open>end - overlap\<close>, where \<open>end\<close> is the raw end of the window.
\<close>

fun chunkText_loop :: "nat \<Rightarrow> string \<Rightarrow> int \<Rightarrow> int \<Rightarrow> int \<Rightarrow> string list \<Rightarrow> string list option" where
  "chunkText_loop 0 text chunkSize overlap start chunks = None"
| "chunkText_loop (Suc fuel) text chunkSize overlap start chunks =
     (if start < int (length text) then
        chunkText_loop fuel text chunkSize overlap
          (window_end text chunkSize start - overlap)
          (chunks @ [trim (window_chunk text chunkSize start)])
      else Some chunks)"

definition chunkText :: "nat \<Rightarrow> string \<Rightarrow> int \<Rightarrow> int \<Rightarrow> string list option" where
  "chunkText fuel text chunkSize overlap =
     map_option (filter (\<lambda>chunk. 50 < length chunk))
       (chunkText_loop fuel text chunkSize overlap 0 [])"

section \<open>Embedding providers\<close>

text \<open>A thrown \<open>Error\<close> with its message.\<close>

datatype error = Error string

type_synonym vec = "real list"

text \<open>
  \<open>toLowerCase()\<close> on code units below 256: the letters \<open>A\<close> to \<open>Z\<close> and the accented
  capitals from 192 to 222 (the multiplication sign 215 apart) move up by 32.
\<close>

definition toLowerCase_char :: "char \<Rightarrow> char" where
  "toLowerCase_char c =
     (let n = (of_char c :: nat)
      in if (65 \<le> n \<and> n \<le> 90) \<or> (192 \<le> n \<and> n \<le> 222 \<and> n \<noteq> 215)
         then char_of (n + 32) else c)"

definition toLowerCase :: "string \<Rightarrow> string" where
  "toLowerCase s = map toLowerCase_char s"

text \<open>
  \<open>split(/\s+/)\<close>: every maximal run of white space separates two pieces, so a text that
  starts or ends with white space yields an empty first or last piece, and the empty text
  yields the one piece \<open>""\<close>. \<open>split_word cur rest\<close> is inside a piece read so far as
  \<open>cur\<close>; \<open>split_space rest\<close> is inside a run of white space.
\<close>

fun split_word :: "string \<Rightarrow> string \<Rightarrow> string list"
  and split_space :: "string \<Rightarrow> string list" where
  "split_word cur [] = [cur]"
| "split_word cur (c # cs) =
     (if isWhiteSpace c then cur # split_space cs else split_word (cur @ [c]) cs)"
| "split_space [] = [[]]"
| "split_space (c # cs) =
     (if isWhiteSpace c then split_space cs else split_word [c] cs)"

definition split_whitespace :: "string \<Rightarrow> string list" where
  "split_whitespace s = split_word [] s"

text \<open>
  The hash of a word: \<open>a = ((a << 5) - a) + b.charCodeAt(0); return a & a\<close>, folded over
  the code units from 0. The shift and the final \<open>&\<close> wrap to 32 bits, so the whole step
  is arithmetic of 32-bit words; \<open>sint\<close> reads the signed result.
\<close>

definition word_hash :: "string \<Rightarrow> 32 word" where
  "word_hash w =
     foldl (\<lambda>a b. let a' = (push_bit 5 a - a) + of_nat (of_char b) in a' AND a') 0 w"

text \<open>\<open>Math.abs(hash) % this.dimensions\<close>, with \<open>dimensions = 384\<close>.\<close>

definition bucket :: "string \<Rightarrow> nat" where
  "bucket w = nat (\<bar>sint (word_hash w)\<bar> mod 384)"

text \<open>\<open>new Array(384).fill(0)\<close>, then \<open>embedding[position] += 1\<close> for every word.\<close>

definition count_word :: "nat list \<Rightarrow> string \<Rightarrow> nat list" where
  "count_word embedding w =
     (let position = bucket w in embedding[position := embedding ! position + 1])"

definition word_counts :: "string list \<Rightarrow> nat list" where
  "word_counts ws = foldl count_word (replicate 384 0) ws"

text \<open>\<open>Math.sqrt(embedding.reduce((sum, val) => sum + val * val, 0))\<close>.\<close>

definition magnitude :: "nat list \<Rightarrow> real" where
  "magnitude embedding = sqrt (foldl (\<lambda>sum val. sum + real val * real val) 0 embedding)"

text \<open>
  The vector of \<open>SimpleEmbeddings.generateEmbeddings\<close>. The source divides every count by the magnitude
  with no test on it; in HOL \<open>x / 0 = 0\<close> where JavaScript gives \<open>NaN\<close> or \<open>Infinity\<close>, so
  the model agrees with the source exactly where the magnitude is not zero.
\<close>

definition SimpleEmbeddings_vector :: "string \<Rightarrow> vec" where
  "SimpleEmbeddings_vector text =
     (let ws = split_whitespace (toLowerCase text);
          embedding = word_counts ws;
          m = magnitude embedding
      in map (\<lambda>val. real val / m) embedding)"

text \<open>The method has no \<open>throw\<close> and awaits nothing: its promise resolves with the vector.\<close>

definition SimpleEmbeddings_generateEmbeddings :: "string \<Rightarrow> error + vec" where
  "SimpleEmbeddings_generateEmbeddings text = Inr (SimpleEmbeddings_vector text)"

text \<open>
  The interface \<open>EmbeddingProvider\<close>. What a remote or local provider answers is outside
  the program, and may change from one call to the next: \<open>generateEmbeddings p n text\<close>
  is the outcome of the call number \<open>n\<close> made to the provider, \<open>Inl\<close> when it throws.
\<close>

record EmbeddingProvider =
  name :: string
  dimensions :: nat
  generateEmbeddings :: "nat \<Rightarrow> string \<Rightarrow> error + vec"

definition SimpleEmbeddings :: EmbeddingProvider where
  "SimpleEmbeddings =
     \<lparr>name = ''simple'', dimensions = 384,
      generateEmbeddings = (\<lambda>n text. SimpleEmbeddings_generateEmbeddings text)\<rparr>"

section \<open>The embeddings manager\<close>

text \<open>
  The fields \<open>provider\<close> and \<open>cache\<close> of the class, and \<open>calls\<close>, which counts the calls
  made to \<open>provider.generateEmbeddings\<close> so that an invocation of the provider is visible
  in the state.
\<close>

record EmbeddingsManager =
  provider :: EmbeddingProvider
  cache :: "string \<rightharpoonup> vec"
  calls :: nat

definition new_EmbeddingsManager :: "EmbeddingProvider \<Rightarrow> EmbeddingsManager" where
  "new_EmbeddingsManager p = \<lparr>provider = p, cache = Map.empty, calls = 0\<rparr>"

text \<open>The decimal digits of a number, as a template literal prints \<open>text.length\<close>.\<close>

fun string_of_nat :: "nat \<Rightarrow> string" where
  "string_of_nat n =
     (if n < 10 then [char_of (48 + n)]
      else string_of_nat (n div 10) @ [char_of (48 + n mod 10)])"

declare string_of_nat.simps [simp del]

text \<open>The cache key \<open>`${text.substring(0, 100)}_${text.length}`\<close>.\<close>

definition cacheKey :: "string \<Rightarrow> string" where
  "cacheKey text = take 100 text @ ''_'' @ string_of_nat (length text)"

definition getEmbeddings ::
  "EmbeddingsManager \<Rightarrow> string \<Rightarrow> bool \<Rightarrow> (error + vec) \<times> EmbeddingsManager" where
  "getEmbeddings m text useCache =
     (case (if useCache then cache m (cacheKey text) else None) of
        Some cached \<Rightarrow> (Inr cached, m)
      | None \<Rightarrow>
          (case generateEmbeddings (provider m) (calls m) text of
             Inr embeddings \<Rightarrow>
               (Inr embeddings,
                m\<lparr>cache := (if useCache then (cache m)(cacheKey text \<mapsto> embeddings) else cache m),
                  calls := Suc (calls m)\<rparr>)
           | Inl err \<Rightarrow>
               (SimpleEmbeddings_generateEmbeddings text, m\<lparr>calls := Suc (calls m)\<rparr>)))"

definition clearCache :: "EmbeddingsManager \<Rightarrow> EmbeddingsManager" where
  "clearCache m = m\<lparr>cache := Map.empty\<rparr>"

section \<open>The chunk table, search and ingestion\<close>

record DocumentChunk =
  chunk_id :: string
  documentId :: string
  content :: string
  embeddings :: "vec option"
  chunkIndex :: nat
  createdAt :: nat

text \<open>Of a \<open>UserDocument\<close>, the fields that ingestion reads, and its title.\<close>

record UserDocument =
  document_id :: string
  title :: string
  document_content :: string

text \<open>
  A double as a score can be: not a number, an infinity, or a finite number, given by
  its exact value (the two zeros are one).
\<close>

datatype js_number = NaN | NegInfinity | Finite real | PosInfinity

text \<open>
  The operations \<open>+\<close>, \<open>*\<close>, \<open>/\<close> and \<open>Math.sqrt\<close> on doubles, as the host computes them.
\<close>

record doubles =
  fl_add :: "js_number \<Rightarrow> js_number \<Rightarrow> js_number"
  fl_mul :: "js_number \<Rightarrow> js_number \<Rightarrow> js_number"
  fl_div :: "js_number \<Rightarrow> js_number \<Rightarrow> js_number"
  fl_sqrt :: "js_number \<Rightarrow> js_number"

text \<open>
  What lies outside the program: the table \<open>db.documentChunks\<close> of the database library,
  whose state has some type \<open>'db\<close> and whose operations may fail, \<open>crypto.randomUUID()\<close>,
  the clock, and the arithmetic of doubles. \<open>deleteWhere db d\<close> is
  \<open>where('documentId').equals(d).delete()\<close>; \<open>randomUUID n\<close> and \<open>now n\<close> are the values
  drawn at the draw number \<open>n\<close>.
\<close>

record 'db host =
  toArray :: "'db \<Rightarrow> error + DocumentChunk list"
  add :: "'db \<Rightarrow> DocumentChunk \<Rightarrow> error + 'db"
  deleteWhere :: "'db \<Rightarrow> string \<Rightarrow> error + 'db"
  randomUUID :: "nat \<Rightarrow> string"
  now :: "nat \<Rightarrow> nat"
  arithmetic :: doubles

text \<open>
  The state of the module: the global \<open>embeddingsManager\<close> (\<open>null\<close> at first), the table,
  and the number of draws made from \<open>randomUUID\<close> and the clock.
\<close>

record 'db world =
  embeddingsManager :: "EmbeddingsManager option"
  documentChunks :: 'db
  draws :: nat

text \<open>
  \<open>calculateCosineSimilarity\<close>: the three sums of the \<open>for\<close> loop are accumulated over the
  pairs of components, every operation being the host's.
\<close>

definition calculateCosineSimilarity :: "doubles \<Rightarrow> vec \<Rightarrow> vec \<Rightarrow> js_number" where
  "calculateCosineSimilarity ar vecA vecB =
     (if length vecA \<noteq> length vecB then Finite 0
      else case foldl (\<lambda>(dotProduct, normA, normB) (a, b).
                         (fl_add ar dotProduct (fl_mul ar (Finite a) (Finite b)),
                          fl_add ar normA (fl_mul ar (Finite a) (Finite a)),
                          fl_add ar normB (fl_mul ar (Finite b) (Finite b))))
                  (Finite 0, Finite 0, Finite 0) (zip vecA vecB) of
             (dotProduct, normA, normB) \<Rightarrow>
               if normA = Finite 0 \<or> normB = Finite 0 then Finite 0
               else fl_div ar dotProduct (fl_mul ar (fl_sqrt ar normA) (fl_sqrt ar normB)))"

text \<open>
  The module's \<open>generateEmbeddings(text)\<close>: a manager over the hash provider is created
  when there is none (\<open>initializeEmbeddings('simple')\<close>), then the manager is asked with
  \<open>useCache\<close> at its default.
\<close>

definition rag_generateEmbeddings :: "'db world \<Rightarrow> string \<Rightarrow> (error + vec) \<times> 'db world" where
  "rag_generateEmbeddings w text =
     (let m = (case embeddingsManager w of
                 None \<Rightarrow> new_EmbeddingsManager SimpleEmbeddings
               | Some m \<Rightarrow> m)
      in case getEmbeddings m text True of
           (r, m') \<Rightarrow> (r, w\<lparr>embeddingsManager := Some m'\<rparr>))"

text \<open>The score \<open>chunk.embeddings ? calculateCosineSimilarity(queryEmbedding, chunk.embeddings) : 0\<close>.\<close>

definition similarity :: "doubles \<Rightarrow> vec \<Rightarrow> DocumentChunk \<Rightarrow> js_number" where
  "similarity ar queryEmbedding chunk =
     (case embeddings chunk of
        Some e \<Rightarrow> calculateCosineSimilarity ar queryEmbedding e
      | None \<Rightarrow> Finite 0)"

text \<open>
  \<open>js_greater x y\<close>: the difference \<open>x - y\<close> of two doubles is positive. The difference
  of two finite doubles is rounded, but it is zero only when they are equal, and its sign
  is that of the exact difference. An infinity minus itself, and every difference with
  NaN, is NaN, which is not positive.
\<close>

fun js_greater :: "js_number \<Rightarrow> js_number \<Rightarrow> bool" where
  "js_greater (Finite x) (Finite y) = (y < x)"
| "js_greater PosInfinity (Finite y) = True"
| "js_greater PosInfinity NegInfinity = True"
| "js_greater (Finite x) NegInfinity = True"
| "js_greater x y = False"

text \<open>
  \<open>.sort((a, b) => b.similarity - a.similarity)\<close>. \<open>Array.prototype.sort\<close> is stable; it puts
  \<open>a\<close> after \<open>b\<close> when the comparator is positive on \<open>(a, b)\<close>, here when
  \<open>b.similarity - a.similarity\<close> is, and takes a NaN of the comparator as 0. When no
  similarity is NaN the comparator is consistent, and the result is the one list that
  every stable sort yields; it is computed here by insertion from the right. When a
  similarity is NaN the language leaves the order to the implementation, and the list
  computed here is one of those it may yield.
\<close>

fun sort_insert :: "'a \<times> js_number \<Rightarrow> ('a \<times> js_number) list \<Rightarrow> ('a \<times> js_number) list" where
  "sort_insert a [] = [a]"
| "sort_insert a (b # bs) =
     (if js_greater (snd b) (snd a) then b # sort_insert a bs else a # b # bs)"

definition sort_by_similarity :: "('a \<times> js_number) list \<Rightarrow> ('a \<times> js_number) list" where
  "sort_by_similarity xs = foldr sort_insert xs []"

text \<open>\<open>searchChunks\<close>. Both \<open>catch\<close> paths log and return \<open>[]\<close>.\<close>

definition searchChunks ::
  "'db host \<Rightarrow> 'db world \<Rightarrow> string \<Rightarrow> int \<Rightarrow> (error + DocumentChunk list) \<times> 'db world" where
  "searchChunks h w query limit =
     (case rag_generateEmbeddings w query of
        (r, w') \<Rightarrow>
          (case r of
             Inl err \<Rightarrow> (Inr [], w')
           | Inr queryEmbedding \<Rightarrow>
               (case toArray h (documentChunks w') of
                  Inl err \<Rightarrow> (Inr [], w')
                | Inr allChunks \<Rightarrow>
                    let chunksWithSimilarity =
                          map (\<lambda>chunk. (chunk, similarity (arithmetic h) queryEmbedding chunk))
                            allChunks
                    in (Inr (map fst (js_slice (sort_by_similarity chunksWithSimilarity) 0 limit)),
                        w'))))"

text \<open>The row that the loop adds for the chunk at index \<open>i\<close>, at the draw number \<open>n\<close>.\<close>

definition new_chunk ::
  "'db host \<Rightarrow> UserDocument \<Rightarrow> string \<Rightarrow> vec \<Rightarrow> nat \<Rightarrow> nat \<Rightarrow> DocumentChunk" where
  "new_chunk h document chunk emb i n =
     \<lparr>chunk_id = randomUUID h n, documentId = document_id document, content = chunk,
      embeddings = Some emb, chunkIndex = i, createdAt = now h n\<rparr>"

text \<open>
  The \<open>for\<close> loop of \<open>processDocument\<close> from index \<open>i\<close> on: embed the chunk, add its row,
  go on; the first failure leaves the loop with the error, which the \<open>catch\<close> logs and
  throws again.
\<close>

fun storeChunks ::
  "'db host \<Rightarrow> UserDocument \<Rightarrow> string list \<Rightarrow> nat \<Rightarrow> 'db world \<Rightarrow> (error + unit) \<times> 'db world" where
  "storeChunks h document [] i w = (Inr (), w)"
| "storeChunks h document (chunk # rest) i w =
     (case rag_generateEmbeddings w chunk of
        (r, w1) \<Rightarrow>
          (case r of
             Inl err \<Rightarrow> (Inl err, w1)
           | Inr emb \<Rightarrow>
               (case add h (documentChunks w1) (new_chunk h document chunk emb i (draws w1)) of
                  Inl err \<Rightarrow> (Inl err, w1\<lparr>draws := Suc (draws w1)\<rparr>)
                | Inr db' \<Rightarrow>
                    storeChunks h document rest (Suc i)
                      (w1\<lparr>documentChunks := db', draws := Suc (draws w1)\<rparr>))))"

text \<open>
  \<open>processDocument\<close>: chunk the content with the default sizes, then (\<open>ingestChunks\<close>, the
  rest of its body) delete the rows of the document and store the new chunks. It returns
  nothing when the chunker does not.
\<close>

definition ingestChunks ::
  "'db host \<Rightarrow> UserDocument \<Rightarrow> string list \<Rightarrow> 'db world \<Rightarrow> (error + unit) \<times> 'db world" where
  "ingestChunks h document chunks w =
     (case deleteWhere h (documentChunks w) (document_id document) of
        Inl err \<Rightarrow> (Inl err, w)
      | Inr db' \<Rightarrow> storeChunks h document chunks 0 (w\<lparr>documentChunks := db'\<rparr>))"

definition processDocument ::
  "nat \<Rightarrow> 'db host \<Rightarrow> UserDocument \<Rightarrow> 'db world \<Rightarrow> ((error + unit) \<times> 'db world) option" where
  "processDocument fuel h document w =
     (case chunkText fuel (document_content document) 1000 200 of
        None \<Rightarrow> None
      | Some chunks \<Rightarrow> Some (ingestChunks h document chunks w))"

section \<open>Providers and tables for the examples\<close>

text \<open>
  A remote provider whose key is refused (the response is not \<open>ok\<close>, so the method
  throws), a provider that answers every call with one vector, and a provider that
  answers its first call and fails from then on.
\<close>

definition unauthorized_provider :: EmbeddingProvider where
  "unauthorized_provider =
     \<lparr>name = ''openai'', dimensions = 1536,
      generateEmbeddings = (\<lambda>n text. Inl (Error ''OpenAI API error: Unauthorized''))\<rparr>"

definition constant_provider :: "vec \<Rightarrow> EmbeddingProvider" where
  "constant_provider v =
     \<lparr>name = ''local'', dimensions = length v, generateEmbeddings = (\<lambda>n text. Inr v)\<rparr>"

definition first_call_provider :: "vec \<Rightarrow> EmbeddingProvider" where
  "first_call_provider v =
     \<lparr>name = ''cohere'', dimensions = length v,
      generateEmbeddings =
        (\<lambda>n text. if n = 0 then Inr v else Inl (Error ''Cohere API error: Too Many Requests''))\<rparr>"

text \<open>
  An arithmetic of doubles that overflows but does not round: it agrees with the host's
  wherever the exact result of an operation is itself a double, or is of magnitude
  \<open>2 ^ 1024\<close> or more. Zero divisors count as positive zeros.
\<close>

definition overflow :: "real \<Rightarrow> js_number" where
  "overflow x =
     (if 2 ^ 1024 \<le> x then PosInfinity
      else if x \<le> - (2 ^ 1024) then NegInfinity
      else Finite x)"

fun unrounded_add :: "js_number \<Rightarrow> js_number \<Rightarrow> js_number" where
  "unrounded_add (Finite x) (Finite y) = overflow (x + y)"
| "unrounded_add NaN y = NaN"
| "unrounded_add x NaN = NaN"
| "unrounded_add PosInfinity NegInfinity = NaN"
| "unrounded_add NegInfinity PosInfinity = NaN"
| "unrounded_add (Finite x) y = y"
| "unrounded_add x y = x"

fun unrounded_mul :: "js_number \<Rightarrow> js_number \<Rightarrow> js_number" where
  "unrounded_mul (Finite x) (Finite y) = overflow (x * y)"
| "unrounded_mul NaN y = NaN"
| "unrounded_mul x NaN = NaN"
| "unrounded_mul (Finite x) y =
     (if x = 0 then NaN else if (0 < x) = (y = PosInfinity) then PosInfinity else NegInfinity)"
| "unrounded_mul x (Finite y) =
     (if y = 0 then NaN else if (0 < y) = (x = PosInfinity) then PosInfinity else NegInfinity)"
| "unrounded_mul x y = (if x = y then PosInfinity else NegInfinity)"

fun unrounded_div :: "js_number \<Rightarrow> js_number \<Rightarrow> js_number" where
  "unrounded_div (Finite x) (Finite y) =
     (if y = 0 then (if x = 0 then NaN else if 0 < x then PosInfinity else NegInfinity)
      else overflow (x / y))"
| "unrounded_div NaN y = NaN"
| "unrounded_div x NaN = NaN"
| "unrounded_div (Finite x) y = Finite 0"
| "unrounded_div x (Finite y) =
     (if (0 \<le> y) = (x = PosInfinity) then PosInfinity else NegInfinity)"
| "unrounded_div x y = NaN"

fun unrounded_sqrt :: "js_number \<Rightarrow> js_number" where
  "unrounded_sqrt (Finite x) = (if x < 0 then NaN else Finite (sqrt x))"
| "unrounded_sqrt PosInfinity = PosInfinity"
| "unrounded_sqrt x = NaN"

definition unrounded :: doubles where
  "unrounded =
     \<lparr>fl_add = unrounded_add, fl_mul = unrounded_mul, fl_div = unrounded_div,
      fl_sqrt = unrounded_sqrt\<rparr>"

text \<open>
  A table kept as the list of its rows that refuses a row once it holds \<open>capacity\<close> of
  them, and a table every access to which fails.
\<close>

definition list_host :: "nat \<Rightarrow> DocumentChunk list host" where
  "list_host capacity =
     \<lparr>toArray = (\<lambda>rows. Inr rows),
      add = (\<lambda>rows row. if length rows < capacity then Inr (rows @ [row])
                         else Inl (Error ''QuotaExceededError'')),
      deleteWhere = (\<lambda>rows d. Inr (filter (\<lambda>row. documentId row \<noteq> d) rows)),
      randomUUID = (\<lambda>n. ''uuid-'' @ string_of_nat n),
      now = (\<lambda>n. n),
      arithmetic = unrounded\<rparr>"

definition closed_host :: "DocumentChunk list host" where
  "closed_host =
     \<lparr>toArray = (\<lambda>rows. Inl (Error ''DatabaseClosedError'')),
      add = (\<lambda>rows row. Inl (Error ''DatabaseClosedError'')),
      deleteWhere = (\<lambda>rows d. Inl (Error ''DatabaseClosedError'')),
      randomUUID = (\<lambda>n. ''uuid-'' @ string_of_nat n),
      now = (\<lambda>n. n),
      arithmetic = unrounded\<rparr>"

text \<open>
  The state of a module that has not asked for an embedding yet, over a given table; the
  state of a module whose manager is over a given provider; a row as an import of the
  database can leave it, with no \<open>embeddings\<close> field; a row with a given vector; a
  vector with a component near the largest double; a document, and one with no content.
\<close>

definition fresh_world :: "'db \<Rightarrow> 'db world" where
  "fresh_world table = \<lparr>embeddingsManager = None, documentChunks = table, draws = 0\<rparr>"

definition bare_chunk :: "nat \<Rightarrow> DocumentChunk" where
  "bare_chunk i =
     \<lparr>chunk_id = ''chunk-'' @ string_of_nat i, documentId = ''doc-1'',
      content = ''Birds can fly.'', embeddings = None, chunkIndex = i, createdAt = 0\<rparr>"

definition managed_world :: "EmbeddingProvider \<Rightarrow> 'db \<Rightarrow> 'db world" where
  "managed_world p table =
     \<lparr>embeddingsManager = Some (new_EmbeddingsManager p), documentChunks = table, draws = 0\<rparr>"

definition vector_chunk :: "nat \<Rightarrow> vec \<Rightarrow> DocumentChunk" where
  "vector_chunk i v =
     \<lparr>chunk_id = ''chunk-'' @ string_of_nat i, documentId = ''doc-2'',
      content = ''Cars can drive.'', embeddings = Some v, chunkIndex = i, createdAt = 0\<rparr>"

definition huge_vector :: vec where
  "huge_vector = [2 ^ 1023, 0]"


definition birds_document :: UserDocument where
  "birds_document =
     \<lparr>document_id = ''doc-1'', title = ''Birds'',
      document_content = ''Cats are great. Dogs are great too. Birds can fly.''\<rparr>"

section \<open>The walk of the chunker\<close>

lemma window_end_le: "window_end text chunkSize start \<le> int (length text)"
  by (simp add: window_end_def)

lemma chunkText_loop_stuck:
  "0 < overlap \<Longrightarrow> start < int (length text) \<Longrightarrow>
   chunkText_loop fuel text chunkSize overlap start chunks = None"
proof (induction fuel arbitrary: start chunks)
  case 0
  show ?case by simp
next
  case (Suc fuel)
  have "window_end text chunkSize start - overlap < int (length text)"
    using window_end_le [of "text" chunkSize start] Suc.prems(1) by linarith
  then show ?case
    using Suc.IH [OF Suc.prems(1)] Suc.prems(2) by simp
qed

lemma chunkText_positive_overlap:
  "0 < overlap \<Longrightarrow> text \<noteq> [] \<Longrightarrow> chunkText fuel text chunkSize overlap = None"
  by (simp add: chunkText_def chunkText_loop_stuck)


lemma chunkText_loop_more_fuel:
  "chunkText_loop fuel text chunkSize overlap start chunks = Some r \<Longrightarrow> fuel \<le> fuel' \<Longrightarrow>
   chunkText_loop fuel' text chunkSize overlap start chunks = Some r"
proof (induction fuel arbitrary: fuel' start chunks)
  case 0
  then show ?case by simp
next
  case (Suc fuel)
  then obtain g where g: "fuel' = Suc g" "fuel \<le> g" by (cases fuel') simp_all
  show ?case
  proof (cases "start < int (length text)")
    case True
    with Suc.prems(1) have "chunkText_loop fuel text chunkSize overlap
          (window_end text chunkSize start - overlap)
          (chunks @ [trim (window_chunk text chunkSize start)]) = Some r" by simp
    then have "chunkText_loop g text chunkSize overlap
          (window_end text chunkSize start - overlap)
          (chunks @ [trim (window_chunk text chunkSize start)]) = Some r"
      using g(2) by (rule Suc.IH)
    with True g(1) show ?thesis by simp
  next
    case False
    with Suc.prems(1) g(1) show ?thesis by simp
  qed
qed

lemma chunkText_loop_no_overlap:
  assumes "0 < chunkSize"
  shows "\<exists>r. chunkText_loop (Suc (nat (int (length text) - start))) text chunkSize 0 start chunks
              = Some r"
proof (induction "nat (int (length text) - start)" arbitrary: start chunks rule: less_induct)
  case less
  show ?case
  proof (cases "start < int (length text)")
    case False
    then show ?thesis by simp
  next
    case True
    let ?e = "window_end text chunkSize start"
    have e: "start < ?e" "?e \<le> int (length text)"
      using True assms by (simp_all add: window_end_def)
    then have "nat (int (length text) - ?e) < nat (int (length text) - start)" by linarith
    then obtain r where r: "chunkText_loop (Suc (nat (int (length text) - ?e))) text chunkSize 0 ?e
        (chunks @ [trim (window_chunk text chunkSize start)]) = Some r"
      using less [of ?e] by blast
    have "Suc (nat (int (length text) - ?e)) \<le> nat (int (length text) - start)"
      using e by linarith
    with r have "chunkText_loop (nat (int (length text) - start)) text chunkSize 0 ?e
        (chunks @ [trim (window_chunk text chunkSize start)]) = Some r"
      by (rule chunkText_loop_more_fuel)
    with True show ?thesis by simp
  qed
qed


text \<open>
  With \<open>overlap = 0\<close> and a positive \<open>chunkSize\<close>, \<open>chunkText\<close> returns a chunk list for
  every text.
\<close>

theorem chunkText_no_overlap_returns:
  "0 < chunkSize \<Longrightarrow> \<exists>fuel r. chunkText fuel text chunkSize 0 = Some r"
proof -
  assume "0 < chunkSize"
  then obtain r where "chunkText_loop (Suc (nat (int (length text) - 0))) text chunkSize 0 0 [] = Some r"
    using chunkText_loop_no_overlap by blast
  then have "chunkText (Suc (length text)) text chunkSize 0 = Some (filter (\<lambda>chunk. 50 < length chunk) r)"
    by (simp add: chunkText_def)
  then show ?thesis by blast
qed

theorem chunkText_no_overlap_returns_witness:
  "(0::int) < 20 \<and> (\<exists>fuel r. chunkText fuel ''Cats are great. Dogs are great too. Birds can fly.'' 20 0 = Some r)"
  using chunkText_no_overlap_returns [of 20 "''Cats are great. Dogs are great too. Birds can fly.''"]
  by simp

text \<open>
  C1. For a non-empty text and \<open>0 < overlap < chunkSize\<close> the source never leaves the
  loop: the window end is at most \<open>text.length\<close>, so \<open>start = end - overlap\<close> stays below
  \<open>text.length\<close> and the loop condition holds in every round. No amount of fuel yields a
  chunk list.
\<close>

theorem chunkText_never_returns:
  assumes "text \<noteq> []" and "0 < overlap" and "overlap < chunkSize"
  shows "\<forall>fuel. chunkText fuel text chunkSize overlap = None"
  using assms by (simp add: chunkText_positive_overlap)

theorem chunkText_never_returns_witness:
  "''a'' \<noteq> [] \<and> (0::int) < 200 \<and> (200::int) < 1000 \<and> (\<forall>fuel. chunkText fuel ''a'' 1000 200 = None)"
  using chunkText_never_returns [of "''a''" 200 1000] by simp

text \<open>
  C5. With the sizes 1000 and 200 the same holds for a text of 1500 characters without a
  sentence end: no chunk list is returned, and the start after the window at 0 is 800,
  after the window at 800 it is 1300, and after the window at 1300 it is 1300 again.
\<close>

theorem chunkText_default_never_returns:
  "(\<forall>fuel. chunkText fuel (replicate 1500 (CHR ''a'')) 1000 200 = None)
   \<and> window_end (replicate 1500 (CHR ''a'')) 1000 0 - 200 = 800
   \<and> window_end (replicate 1500 (CHR ''a'')) 1000 800 - 200 = 1300
   \<and> window_end (replicate 1500 (CHR ''a'')) 1000 1300 - 200 = 1300"
  by (simp add: chunkText_positive_overlap window_end_def)

section \<open>The sentence break of a window\<close>

lemma lastIndexOf_bounds: "- 1 \<le> lastIndexOf xs c \<and> lastIndexOf xs c < int (length xs)"
  by (induction xs) (auto simp: Let_def)

lemma lastIndexOf_holds: "0 \<le> lastIndexOf xs c \<Longrightarrow> xs ! nat (lastIndexOf xs c) = c"
proof (induction xs)
  case Nil
  then show ?case by simp
next
  case (Cons x xs)
  show ?case
  proof (cases "0 \<le> lastIndexOf xs c")
    case True
    then have "nat (lastIndexOf xs c + 1) = Suc (nat (lastIndexOf xs c))" by simp
    with True Cons.IH show ?thesis by (simp add: Let_def)
  next
    case False
    with Cons.prems show ?thesis by (simp add: Let_def split: if_splits)
  qed
qed

lemma lastIndexOf_ge: "p < length xs \<Longrightarrow> xs ! p = c \<Longrightarrow> int p \<le> lastIndexOf xs c"
proof (induction xs arbitrary: p)
  case Nil
  then show ?case by simp
next
  case (Cons x xs)
  show ?case
  proof (cases p)
    case 0
    with Cons.prems lastIndexOf_bounds [of xs c] show ?thesis by (simp add: Let_def)
  next
    case (Suc q)
    with Cons.prems have "int q \<le> lastIndexOf xs c" using Cons.IH [of q] by simp
    with Suc show ?thesis by (simp add: Let_def)
  qed
qed

lemma lastIndexOf_absent: "c \<notin> set xs \<Longrightarrow> lastIndexOf xs c = - 1"
  by (induction xs) (auto simp: Let_def)

lemma js_slice_prefix: "0 \<le> e \<Longrightarrow> js_slice xs 0 e = take (nat e) xs"
  by (simp add: js_slice_def Let_def min_def)

lemma round_binary64_nonneg: "0 \<le> m \<Longrightarrow> 0 \<le> fst (round_binary64 (m, e))"
  by (simp add: round_binary64_def Let_def sgn_if pos_imp_zdiv_nonneg_iff)

lemma beyond_threshold_nonneg:
  assumes "0 \<le> chunkSize" and "beyond_threshold lastBreak 0 chunkSize"
  shows "0 \<le> lastBreak"
proof (rule ccontr)
  assume "\<not> 0 \<le> lastBreak"
  then have neg: "lastBreak < 0" by simp
  obtain m e where me: "b64_mul (b64_of_int chunkSize) b64_0_7 = (m, e)" by (cases "b64_mul (b64_of_int chunkSize) b64_0_7")
  have "0 \<le> fst (b64_mul (b64_of_int chunkSize) b64_0_7)"
    unfolding b64_mul_def b64_of_int_def b64_0_7_def using assms(1)
    by (simp add: round_binary64_nonneg)
  then have m0: "0 \<le> m" using me by simp
  obtain m' e' where me': "b64_add (b64_of_int 0) (m, e) = (m', e')" by (cases "b64_add (b64_of_int 0) (m, e)")
  have "0 \<le> fst (b64_add (b64_of_int 0) (m, e))"
    unfolding b64_add_def b64_of_int_def Let_def using m0
    by (simp add: round_binary64_nonneg)
  then have m0': "0 \<le> m'" using me' by simp
  have "0 \<le> m' * 2 ^ nat (e' - min e' 0)" using m0' by simp
  moreover have "lastBreak * 2 ^ nat (0 - min e' 0) < 0" using neg by (simp add: mult_less_0_iff)
  ultimately have "\<not> b64_less (m', e') (b64_of_int lastBreak)"
    by (simp add: b64_less_def b64_of_int_def Let_def)
  with assms(2) me me' show False by (simp add: beyond_threshold_def)
qed

lemma threshold_default: "beyond_threshold p 0 1000 \<longleftrightarrow> 700 < p"
proof -
  have "b64_add (b64_of_int 0) (b64_mul (b64_of_int 1000) b64_0_7) = (6157265115545600, - 43)"
    by code_simp
  then show ?thesis
    by (simp add: beyond_threshold_def b64_less_def b64_of_int_def Let_def)
qed

lemma lastBreak_none:
  assumes "\<forall>i. i < length xs \<longrightarrow> xs ! i \<notin> {CHR ''.'', CHR ''?'', CHR ''!''}"
  shows "max (max (lastIndexOf xs (CHR ''.'')) (lastIndexOf xs (CHR ''?''))) (lastIndexOf xs (CHR ''!'')) = - 1"
proof -
  have "c \<in> {CHR ''.'', CHR ''?'', CHR ''!''} \<Longrightarrow> c \<notin> set xs" for c
    using assms by (auto simp: in_set_conv_nth)
  then show ?thesis by (simp add: lastIndexOf_absent)
qed

lemma lastBreak_last:
  assumes p: "p < length xs" and at: "xs ! p \<in> {CHR ''.'', CHR ''?'', CHR ''!''}"
    and after: "\<forall>i. p < i \<and> i < length xs \<longrightarrow> xs ! i \<notin> {CHR ''.'', CHR ''?'', CHR ''!''}"
  shows "max (max (lastIndexOf xs (CHR ''.'')) (lastIndexOf xs (CHR ''?''))) (lastIndexOf xs (CHR ''!'')) = int p"
proof -
  have le: "lastIndexOf xs c \<le> int p" if "c \<in> {CHR ''.'', CHR ''?'', CHR ''!''}" for c
  proof (rule ccontr)
    assume "\<not> lastIndexOf xs c \<le> int p"
    then have gt: "int p < lastIndexOf xs c" by simp
    then have "xs ! nat (lastIndexOf xs c) = c" by (simp add: lastIndexOf_holds)
    moreover have "p < nat (lastIndexOf xs c)" "nat (lastIndexOf xs c) < length xs"
      using gt lastIndexOf_bounds [of xs c] by auto
    moreover have "xs ! nat (lastIndexOf xs c) \<notin> {CHR ''.'', CHR ''?'', CHR ''!''}"
      using after \<open>p < nat (lastIndexOf xs c)\<close> \<open>nat (lastIndexOf xs c) < length xs\<close>
      by blast
    ultimately show False using that by simp
  qed
  have l1: "lastIndexOf xs (CHR ''.'') \<le> int p" by (rule le) simp
  have l2: "lastIndexOf xs (CHR ''?'') \<le> int p" by (rule le) simp
  have l3: "lastIndexOf xs (CHR ''!'') \<le> int p" by (rule le) simp
  have "int p \<le> lastIndexOf xs (xs ! p)" by (rule lastIndexOf_ge [OF p refl])
  then have "int p \<le> lastIndexOf xs (CHR ''.'') \<or> int p \<le> lastIndexOf xs (CHR ''?'')
      \<or> int p \<le> lastIndexOf xs (CHR ''!'')"
    using at by fastforce
  with l1 l2 l3 show ?thesis by linarith
qed


text \<open>
  C4, as the code has it, for the first window, where the index inside the chunk is the
  position in the text. Let the window of \<open>chunkSize\<close> characters from 0 end before the
  end of the text. With no \<open>.\<close>, \<open>?\<close> or \<open>!\<close> in the window the chunk is the raw window.
  Otherwise let \<open>p\<close> be the last position in the window that holds one: the chunk ends
  just after \<open>p\<close> if and only if \<open>p\<close> is strictly greater than the binary64 value of
  \<open>chunkSize * 0.7\<close>, and is the raw window if not. For the default size 1000 that is
  \<open>700 < p\<close>: a sentence end at exactly \<open>0.7 * chunkSize\<close> does not cut the chunk.
\<close>

theorem first_window_break:
  assumes "0 < chunkSize" and "chunkSize < int (length text)"
  shows "((\<forall>i. i < nat chunkSize \<longrightarrow> text ! i \<notin> {CHR ''.'', CHR ''?'', CHR ''!''}) \<longrightarrow>
            window_chunk text chunkSize 0 = take (nat chunkSize) text)
       \<and> (\<forall>p. p < nat chunkSize \<and> text ! p \<in> {CHR ''.'', CHR ''?'', CHR ''!''}
               \<and> (\<forall>i. p < i \<and> i < nat chunkSize \<longrightarrow> text ! i \<notin> {CHR ''.'', CHR ''?'', CHR ''!''}) \<longrightarrow>
            window_chunk text chunkSize 0 =
              (if beyond_threshold (int p) 0 chunkSize then take (Suc p) text
               else take (nat chunkSize) text))
       \<and> (\<forall>p. beyond_threshold p 0 1000 \<longleftrightarrow> 700 < p)"
proof -
  let ?chunk = "take (nat chunkSize) text"
  let ?lastBreak = "max (max (lastIndexOf ?chunk (CHR ''.'')) (lastIndexOf ?chunk (CHR ''?'')))
                        (lastIndexOf ?chunk (CHR ''!''))"
  have e: "window_end text chunkSize 0 = chunkSize"
    using assms by (simp add: window_end_def)
  have len: "length ?chunk = nat chunkSize" using assms by simp
  have w: "window_chunk text chunkSize 0 =
             (if beyond_threshold ?lastBreak 0 chunkSize then js_slice ?chunk 0 (?lastBreak + 1)
              else ?chunk)"
    using assms by (simp add: window_chunk_def e js_slice_prefix Let_def)
  have none: "window_chunk text chunkSize 0 = ?chunk"
    if "\<forall>i. i < nat chunkSize \<longrightarrow> text ! i \<notin> {CHR ''.'', CHR ''?'', CHR ''!''}"
  proof -
    have "\<forall>i. i < length ?chunk \<longrightarrow> ?chunk ! i \<notin> {CHR ''.'', CHR ''?'', CHR ''!''}"
      using that len by simp
    then have "?lastBreak = - 1" by (rule lastBreak_none)
    moreover have "\<not> beyond_threshold (- 1) 0 chunkSize"
      using beyond_threshold_nonneg [of chunkSize "- 1"] assms(1) by fastforce
    ultimately show ?thesis using w by simp
  qed
  have some: "window_chunk text chunkSize 0 =
      (if beyond_threshold (int p) 0 chunkSize then take (Suc p) text else ?chunk)"
    if "p < nat chunkSize" "text ! p \<in> {CHR ''.'', CHR ''?'', CHR ''!''}"
       "\<forall>i. p < i \<and> i < nat chunkSize \<longrightarrow> text ! i \<notin> {CHR ''.'', CHR ''?'', CHR ''!''}" for p
  proof -
    have "?lastBreak = int p"
    proof (rule lastBreak_last)
      show "p < length ?chunk" using that(1) len by simp
      show "?chunk ! p \<in> {CHR ''.'', CHR ''?'', CHR ''!''}" using that(1,2) by simp
      show "\<forall>i. p < i \<and> i < length ?chunk \<longrightarrow> ?chunk ! i \<notin> {CHR ''.'', CHR ''?'', CHR ''!''}"
        using that(3) len by simp
    qed
    moreover have "js_slice ?chunk 0 (int p + 1) = take (Suc p) text"
      using that(1) by (simp add: js_slice_prefix nat_add_distrib min_def)
    ultimately show ?thesis using w by simp
  qed
  show ?thesis
  proof (intro conjI allI impI)
    assume "\<forall>i. i < nat chunkSize \<longrightarrow> text ! i \<notin> {CHR ''.'', CHR ''?'', CHR ''!''}"
    then show "window_chunk text chunkSize 0 = ?chunk" by (rule none)
  next
    fix p
    assume "p < nat chunkSize \<and> text ! p \<in> {CHR ''.'', CHR ''?'', CHR ''!''}
               \<and> (\<forall>i. p < i \<and> i < nat chunkSize \<longrightarrow> text ! i \<notin> {CHR ''.'', CHR ''?'', CHR ''!''})"
    then show "window_chunk text chunkSize 0 =
      (if beyond_threshold (int p) 0 chunkSize then take (Suc p) text else ?chunk)"
      using some [of p] by (elim conjE)
  next
    fix p :: int
    show "beyond_threshold p 0 1000 \<longleftrightarrow> 700 < p" by (rule threshold_default)
  qed
qed

theorem first_window_break_witness:
  "(0::int) < 10 \<and> (10::int) < int (length ''aaaaaaaa.aaaaaaaaaaa'')
   \<and> beyond_threshold 8 0 10
   \<and> window_chunk ''aaaaaaaa.aaaaaaaaaaa'' 10 0 = ''aaaaaaaa.''"
proof -
  let ?T = "''aaaaaaaa.aaaaaaaaaaa''"
  let ?S = "{CHR ''.'', CHR ''?'', CHR ''!''}"
  have A: "(0::int) < 10" by simp
  have B: "(10::int) < int (length ?T)" by simp
  have b: "beyond_threshold (int 8) 0 10" by code_simp
  have after: "\<forall>i. 8 < i \<and> i < nat 10 \<longrightarrow> ?T ! i \<notin> ?S"
  proof (intro allI impI)
    fix i :: nat assume "8 < i \<and> i < nat 10"
    then have "i = 9" by simp
    then show "?T ! i \<notin> ?S" by simp
  qed
  have pre: "8 < nat 10 \<and> ?T ! 8 \<in> ?S \<and> (\<forall>i. 8 < i \<and> i < nat 10 \<longrightarrow> ?T ! i \<notin> ?S)"
    using after by simp
  have "\<forall>p. p < nat 10 \<and> ?T ! p \<in> ?S \<and> (\<forall>i. p < i \<and> i < nat 10 \<longrightarrow> ?T ! i \<notin> ?S) \<longrightarrow>
          window_chunk ?T 10 0 =
            (if beyond_threshold (int p) 0 10 then take (Suc p) ?T else take (nat 10) ?T)"
    using first_window_break [OF A B] by (rule conjunct1 [OF conjunct2])
  then have "8 < nat 10 \<and> ?T ! 8 \<in> ?S \<and> (\<forall>i. 8 < i \<and> i < nat 10 \<longrightarrow> ?T ! i \<notin> ?S) \<longrightarrow>
          window_chunk ?T 10 0 =
            (if beyond_threshold (int 8) 0 10 then take (Suc 8) ?T else take (nat 10) ?T)"
    by (rule spec)
  then have "window_chunk ?T 10 0 =
            (if beyond_threshold (int 8) 0 10 then take (Suc 8) ?T else take (nat 10) ?T)"
    using pre by (rule mp)
  then have "window_chunk ?T 10 0 = ''aaaaaaaa.''" using b by simp
  with A B b show ?thesis by simp
qed

text \<open>
  C4 as stated fails twice. A full stop at position 7 of the first window of size 10 is no
  earlier than \<open>0 + 0.7 * 10\<close>, yet the chunk keeps all 10 characters, for the test is
  strict. In the window that starts at 8, a full stop at position 16 is no earlier than
  \<open>8 + 0.7 * 10\<close>, yet the chunk is not cut: \<open>lastBreak\<close> is the index 8 inside the chunk,
  and the code compares it with \<open>start + chunkSize * 0.7 = 15\<close>.
\<close>

theorem window_break_counterexample:
  "window_chunk ''aaaaaaa.aaaaaaaaaaaa'' 10 0 = ''aaaaaaa.aa''
   \<and> window_chunk ''aaaaaaaaaaaaaaaa.aaaaaaaaaaaaa'' 10 8 = ''aaaaaaaa.a''"
  by code_simp

section \<open>The hash provider\<close>

lemma split_nonempty: "split_word cur s \<noteq> []" and "split_space s' \<noteq> []"
  by (induction cur s and s' rule: split_word_split_space.induct) auto

lemma split_whitespace_nonempty: "split_whitespace s \<noteq> []"
  by (simp add: split_whitespace_def split_nonempty)

lemma bucket_less: "bucket w < 384"
  by (simp add: bucket_def nat_less_iff)

lemma count_step_length: "length (foldl count_word e ws) = length e"
  by (induction ws arbitrary: e) (simp_all add: count_word_def Let_def)

lemma sum_list_bump:
  fixes e :: "nat list"
  shows "p < length e \<Longrightarrow> sum_list (e[p := e ! p + 1]) = sum_list e + 1"
  by (simp add: sum_list_update)

lemma count_step_sum:
  "length e = 384 \<Longrightarrow> sum_list (foldl count_word e ws) = sum_list e + length ws"
proof (induction ws arbitrary: e)
  case Nil
  show ?case by simp
next
  case (Cons w ws)
  have "bucket w < length e" using Cons.prems bucket_less [of w] by simp
  then have "sum_list (e[bucket w := e ! bucket w + 1]) = sum_list e + 1"
    by (rule sum_list_bump)
  moreover have "length (e[bucket w := e ! bucket w + 1]) = 384" using Cons.prems by simp
  ultimately show ?case using Cons.IH [of "e[bucket w := e ! bucket w + 1]"]
    by (simp add: count_word_def Let_def)
qed

lemma length_word_counts: "length (word_counts ws) = 384"
  by (simp add: word_counts_def count_step_length)

lemma sum_word_counts: "sum_list (word_counts ws) = length ws"
  by (simp add: word_counts_def count_step_sum)

lemma foldl_squares:
  "foldl (\<lambda>sum val. sum + real val * real val) a e = a + (\<Sum>v\<leftarrow>e. real v * real v)"
  by (induction e arbitrary: a) simp_all

lemma squares_ge_sum: "real (sum_list e) \<le> (\<Sum>v\<leftarrow>e. real v * real v)"
proof (induction e)
  case Nil
  show ?case by simp
next
  case (Cons v e)
  have "v \<le> v * v" by (cases v) simp_all
  then have "real v \<le> real v * real v"
    by (metis of_nat_le_iff of_nat_mult)
  with Cons show ?case by simp
qed

lemma squares_word_counts:
  "ws \<noteq> [] \<Longrightarrow> 1 \<le> (\<Sum>v\<leftarrow>word_counts ws. real v * real v)"
proof -
  assume "ws \<noteq> []"
  then have "1 \<le> length ws" by (cases ws) simp_all
  then have "1 \<le> real (sum_list (word_counts ws))" by (simp add: sum_word_counts)
  with squares_ge_sum [of "word_counts ws"] show ?thesis by linarith
qed

lemma magnitude_ge_1: "ws \<noteq> [] \<Longrightarrow> 1 \<le> magnitude (word_counts ws)"
  using squares_word_counts [of ws] by (simp add: magnitude_def foldl_squares)

lemma sum_list_quotients:
  fixes f :: "'a \<Rightarrow> real"
  shows "(\<Sum>v\<leftarrow>e. f v / c) = (\<Sum>v\<leftarrow>e. f v) / c"
  by (induction e) (simp_all add: add_divide_distrib)

lemma normalized_squares:
  assumes "0 < (\<Sum>v\<leftarrow>e. real v * real v)"
  shows "(\<Sum>x\<leftarrow>map (\<lambda>val. real val / magnitude e) e. x * x) = 1"
proof -
  let ?S = "\<Sum>v\<leftarrow>e. real v * real v"
  have m: "magnitude e * magnitude e = ?S"
    using assms by (simp add: magnitude_def foldl_squares)
  have "(\<Sum>x\<leftarrow>map (\<lambda>val. real val / magnitude e) e. x * x)
        = (\<Sum>v\<leftarrow>e. (real v * real v) / ?S)"
    by (simp add: comp_def m [symmetric])
  also have "\<dots> = ?S / ?S"
    by (rule sum_list_quotients)
  also have "\<dots> = 1" using assms by simp
  finally show ?thesis .
qed

lemma simple_unit_vector:
  "length (SimpleEmbeddings_vector text) = 384
   \<and> (\<Sum>x\<leftarrow>SimpleEmbeddings_vector text. x * x) = 1"
proof -
  let ?e = "word_counts (split_whitespace (toLowerCase text))"
  have "1 \<le> (\<Sum>v\<leftarrow>?e. real v * real v)"
    by (rule squares_word_counts) (rule split_whitespace_nonempty)
  then have "(\<Sum>x\<leftarrow>map (\<lambda>val. real val / magnitude ?e) ?e. x * x) = 1"
    by (intro normalized_squares) linarith
  then show ?thesis
    by (simp add: SimpleEmbeddings_vector_def Let_def length_word_counts)
qed

lemma word_counts_empty_word: "word_counts [[]] = 1 # replicate 383 0"
proof -
  have "bucket [] = 0" by (simp add: bucket_def word_hash_def)
  moreover have "replicate 384 (0::nat) = 0 # replicate 383 0"
    by (simp add: numeral_eq_Suc)
  ultimately show ?thesis by (simp add: word_counts_def count_word_def Let_def)
qed

lemma simple_empty: "SimpleEmbeddings_vector [] = 1 # replicate 383 0"
proof -
  have "magnitude (1 # replicate 383 0) = 1"
    by (simp add: magnitude_def foldl_squares sum_list_replicate)
  then show ?thesis
    by (simp add: SimpleEmbeddings_vector_def Let_def toLowerCase_def
        split_whitespace_def word_counts_empty_word)
qed

text \<open>
  C6, as the code has it. \<open>split(/\s+/)\<close> never yields an empty array, so at least one
  bucket is counted up and the magnitude is at least 1 for every text: the division of
  the normalization, which the source does not guard, never has a zero divisor. For the
  empty text the one piece is the empty word, whose hash is 0: the counts are 1 in
  bucket 0 and 0 elsewhere, and the vector returned is that unit vector.
\<close>

theorem magnitude_never_zero:
  "1 \<le> magnitude (word_counts (split_whitespace (toLowerCase text)))
   \<and> word_counts (split_whitespace (toLowerCase [])) = 1 # replicate 383 0
   \<and> SimpleEmbeddings_generateEmbeddings [] = Inr (1 # replicate 383 0)"
  by (simp add: magnitude_ge_1 split_whitespace_nonempty simple_empty
      SimpleEmbeddings_generateEmbeddings_def)
     (simp add: toLowerCase_def split_whitespace_def word_counts_empty_word)

text \<open>
  C6 as stated fails on the empty text: what is returned is not the zero vector but the
  unit vector of bucket 0.
\<close>

theorem empty_text_counterexample:
  "SimpleEmbeddings_generateEmbeddings [] = Inr (1 # replicate 383 0)
   \<and> SimpleEmbeddings_generateEmbeddings [] \<noteq> Inr (replicate 384 0)"
proof -
  have "replicate 384 (0::real) = 0 # replicate 383 0" by (simp add: numeral_eq_Suc)
  then show ?thesis by (simp add: SimpleEmbeddings_generateEmbeddings_def simple_empty)
qed

section \<open>The manager: fallback and cache\<close>

lemma cacheKey_cong:
  "take 100 text2 = take 100 text1 \<Longrightarrow> length text2 = length text1 \<Longrightarrow>
   cacheKey text2 = cacheKey text1"
  by (simp add: cacheKey_def)

text \<open>
  C3. Let the provider be called (the cache is not consulted, or has no entry for the key
  of the text) and let its call fail. Then \<open>getEmbeddings\<close> returns no error but the
  result of the hash provider on the same text, a vector of 384 components whose squares
  sum to 1, and the \<open>provider\<close> field of the manager is the same as before.
\<close>

theorem getEmbeddings_fallback:
  assumes "useCache \<longrightarrow> cache m (cacheKey text) = None"
    and "generateEmbeddings (provider m) (calls m) text = Inl err"
  shows "fst (getEmbeddings m text useCache) = SimpleEmbeddings_generateEmbeddings text
       \<and> fst (getEmbeddings m text useCache) = Inr (SimpleEmbeddings_vector text)
       \<and> length (SimpleEmbeddings_vector text) = 384
       \<and> (\<Sum>x\<leftarrow>SimpleEmbeddings_vector text. x * x) = 1
       \<and> provider (snd (getEmbeddings m text useCache)) = provider m"
proof -
  have "getEmbeddings m text useCache =
          (SimpleEmbeddings_generateEmbeddings text, m\<lparr>calls := Suc (calls m)\<rparr>)"
    using assms by (simp add: getEmbeddings_def)
  then show ?thesis using simple_unit_vector [of "text"]
    by (simp add: SimpleEmbeddings_generateEmbeddings_def)
qed

theorem getEmbeddings_fallback_witness:
  "fst (getEmbeddings (new_EmbeddingsManager unauthorized_provider) ''birds fly'' True)
     = SimpleEmbeddings_generateEmbeddings ''birds fly''
   \<and> fst (getEmbeddings (new_EmbeddingsManager unauthorized_provider) ''birds fly'' True)
     = Inr (SimpleEmbeddings_vector ''birds fly'')
   \<and> length (SimpleEmbeddings_vector ''birds fly'') = 384
   \<and> (\<Sum>x\<leftarrow>SimpleEmbeddings_vector ''birds fly''. x * x) = 1
   \<and> provider (snd (getEmbeddings (new_EmbeddingsManager unauthorized_provider) ''birds fly'' True))
     = unauthorized_provider"
proof -
  let ?m = "new_EmbeddingsManager unauthorized_provider"
  have a: "True \<longrightarrow> cache ?m (cacheKey ''birds fly'') = None"
    by (simp add: new_EmbeddingsManager_def)
  have b: "generateEmbeddings (provider ?m) (calls ?m) ''birds fly''
             = Inl (Error ''OpenAI API error: Unauthorized'')"
    by (simp add: new_EmbeddingsManager_def unauthorized_provider_def)
  have p: "provider ?m = unauthorized_provider" by (simp add: new_EmbeddingsManager_def)
  from getEmbeddings_fallback [OF a b] show ?thesis unfolding p .
qed

text \<open>
  C8. Let \<open>text2\<close> have the first 100 characters and the length of \<open>text1\<close>. With
  \<open>useCache\<close> on, if the cache holds \<open>v\<close> under the key of \<open>text1\<close>, the call for \<open>text2\<close>
  returns \<open>v\<close> and leaves the manager as it is, the count of provider calls included. In
  particular, after a call for \<open>text1\<close> that missed the cache and got \<open>v\<close> from the
  provider, the call for \<open>text2\<close> returns \<open>v\<close> without a call to the provider, whether or
  not the two texts are equal.
\<close>

theorem getEmbeddings_cache_hit:
  assumes "take 100 text2 = take 100 text1" and "length text2 = length text1"
  shows "(cache m (cacheKey text1) = Some v \<longrightarrow> getEmbeddings m text2 True = (Inr v, m))
       \<and> (cache m (cacheKey text1) = None
            \<and> generateEmbeddings (provider m) (calls m) text1 = Inr v \<longrightarrow>
          fst (getEmbeddings m text1 True) = Inr v
          \<and> getEmbeddings (snd (getEmbeddings m text1 True)) text2 True
              = (Inr v, snd (getEmbeddings m text1 True)))"
proof -
  have k: "cacheKey text2 = cacheKey text1" using assms by (rule cacheKey_cong)
  show ?thesis by (simp add: getEmbeddings_def k)
qed

theorem getEmbeddings_cache_hit_witness:
  "replicate 100 (CHR ''a'') @ ''x'' \<noteq> replicate 100 (CHR ''a'') @ ''y''
   \<and> fst (getEmbeddings (new_EmbeddingsManager (constant_provider [1]))
            (replicate 100 (CHR ''a'') @ ''x'') True) = Inr [1]
   \<and> getEmbeddings
        (snd (getEmbeddings (new_EmbeddingsManager (constant_provider [1]))
               (replicate 100 (CHR ''a'') @ ''x'') True))
        (replicate 100 (CHR ''a'') @ ''y'') True
      = (Inr [1],
         snd (getEmbeddings (new_EmbeddingsManager (constant_provider [1]))
               (replicate 100 (CHR ''a'') @ ''x'') True))"
proof -
  let ?m = "new_EmbeddingsManager (constant_provider [1])"
  let ?x = "replicate 100 (CHR ''a'') @ ''x''"
  let ?y = "replicate 100 (CHR ''a'') @ ''y''"
  have a: "take 100 ?y = take 100 ?x" by simp
  have b: "length ?y = length ?x" by simp
  have c: "cache ?m (cacheKey ?x) = None \<and> generateEmbeddings (provider ?m) (calls ?m) ?x = Inr [1]"
    by (simp add: new_EmbeddingsManager_def constant_provider_def)
  have "cache ?m (cacheKey ?x) = None \<and> generateEmbeddings (provider ?m) (calls ?m) ?x = Inr [1] \<longrightarrow>
          fst (getEmbeddings ?m ?x True) = Inr [1]
          \<and> getEmbeddings (snd (getEmbeddings ?m ?x True)) ?y True
              = (Inr [1], snd (getEmbeddings ?m ?x True))"
    using getEmbeddings_cache_hit [OF a b, of ?m "[1]"] by (rule conjunct2)
  then have "fst (getEmbeddings ?m ?x True) = Inr [1]
          \<and> getEmbeddings (snd (getEmbeddings ?m ?x True)) ?y True
              = (Inr [1], snd (getEmbeddings ?m ?x True))"
    using c by (rule mp)
  moreover have "?x \<noteq> ?y" by simp
  ultimately show ?thesis by simp
qed

text \<open>
  C10, as the code has it. Let the provider be called and fail. The call leaves the cache
  as it was and counts one provider call. If the key of the text had no entry before the
  call (as is the case whenever the failing call ran with \<open>useCache\<close> on), the next call
  for the same text with \<open>useCache\<close> on calls the provider again, and returns what the
  provider then answers, or the hash vector if it fails again.
\<close>

theorem failed_call_leaves_cache:
  assumes "useCache \<longrightarrow> cache m (cacheKey text) = None"
    and "generateEmbeddings (provider m) (calls m) text = Inl err"
  shows "cache (snd (getEmbeddings m text useCache)) = cache m
       \<and> calls (snd (getEmbeddings m text useCache)) = Suc (calls m)
       \<and> (cache m (cacheKey text) = None \<longrightarrow>
            calls (snd (getEmbeddings (snd (getEmbeddings m text useCache)) text True))
              = Suc (Suc (calls m))
            \<and> fst (getEmbeddings (snd (getEmbeddings m text useCache)) text True)
              = (case generateEmbeddings (provider m) (Suc (calls m)) text of
                   Inr v \<Rightarrow> Inr v
                 | Inl e \<Rightarrow> SimpleEmbeddings_generateEmbeddings text))"
proof -
  have first: "getEmbeddings m text useCache =
          (SimpleEmbeddings_generateEmbeddings text, m\<lparr>calls := Suc (calls m)\<rparr>)"
    using assms by (simp add: getEmbeddings_def)
  have second: "calls (snd (getEmbeddings (m\<lparr>calls := Suc (calls m)\<rparr>) text True)) = Suc (Suc (calls m))
      \<and> fst (getEmbeddings (m\<lparr>calls := Suc (calls m)\<rparr>) text True)
         = (case generateEmbeddings (provider m) (Suc (calls m)) text of
                   Inr v \<Rightarrow> Inr v
                 | Inl e \<Rightarrow> SimpleEmbeddings_generateEmbeddings text)"
    if "cache m (cacheKey text) = None"
    using that by (simp add: getEmbeddings_def split: sum.split)
  show ?thesis using first second by simp
qed

theorem failed_call_leaves_cache_witness:
  "cache (snd (getEmbeddings (new_EmbeddingsManager unauthorized_provider) ''birds fly'' True))
     = Map.empty
   \<and> calls (snd (getEmbeddings (new_EmbeddingsManager unauthorized_provider) ''birds fly'' True)) = 1
   \<and> calls (snd (getEmbeddings
        (snd (getEmbeddings (new_EmbeddingsManager unauthorized_provider) ''birds fly'' True))
        ''birds fly'' True)) = 2"
proof -
  let ?m = "new_EmbeddingsManager unauthorized_provider"
  have a: "True \<longrightarrow> cache ?m (cacheKey ''birds fly'') = None"
    by (simp add: new_EmbeddingsManager_def)
  have b: "generateEmbeddings (provider ?m) (calls ?m) ''birds fly''
             = Inl (Error ''OpenAI API error: Unauthorized'')"
    by (simp add: new_EmbeddingsManager_def unauthorized_provider_def)
  have c: "cache ?m = Map.empty" "calls ?m = 0" "cache ?m (cacheKey ''birds fly'') = None"
    by (simp_all add: new_EmbeddingsManager_def)
  show ?thesis using failed_call_leaves_cache [OF a b] c by simp
qed

text \<open>
  C10 as stated fails when the failing call ran with \<open>useCache\<close> off over an older entry.
  The first call caches the provider's \<open>[1]\<close>; the second, with \<open>useCache\<close> off, calls the
  provider, which fails, and returns the hash vector; the third, with \<open>useCache\<close> on,
  returns \<open>[1]\<close> from the cache, and the count of provider calls stays at 2.
\<close>

theorem stale_entry_counterexample:
  "fst (getEmbeddings (new_EmbeddingsManager (first_call_provider [1])) ''birds fly'' True) = Inr [1]
   \<and> fst (getEmbeddings
        (snd (getEmbeddings (new_EmbeddingsManager (first_call_provider [1])) ''birds fly'' True))
        ''birds fly'' False) = SimpleEmbeddings_generateEmbeddings ''birds fly''
   \<and> calls (snd (getEmbeddings
        (snd (getEmbeddings (new_EmbeddingsManager (first_call_provider [1])) ''birds fly'' True))
        ''birds fly'' False)) = 2
   \<and> fst (getEmbeddings
        (snd (getEmbeddings
          (snd (getEmbeddings (new_EmbeddingsManager (first_call_provider [1])) ''birds fly'' True))
          ''birds fly'' False))
        ''birds fly'' True) = Inr [1]
   \<and> calls (snd (getEmbeddings
        (snd (getEmbeddings
          (snd (getEmbeddings (new_EmbeddingsManager (first_call_provider [1])) ''birds fly'' True))
          ''birds fly'' False))
        ''birds fly'' True)) = 2"
  by (simp add: getEmbeddings_def new_EmbeddingsManager_def first_call_provider_def)

section \<open>Search\<close>

lemma getEmbeddings_returns: "\<exists>q. fst (getEmbeddings m text useCache) = Inr q"
  by (simp add: getEmbeddings_def SimpleEmbeddings_generateEmbeddings_def
      split: option.split sum.split)

lemma rag_generateEmbeddings_returns: "\<exists>q. fst (rag_generateEmbeddings w text) = Inr q"
proof -
  let ?m = "case embeddingsManager w of
              None \<Rightarrow> new_EmbeddingsManager SimpleEmbeddings | Some m \<Rightarrow> m"
  obtain q where "fst (getEmbeddings ?m text True) = Inr q"
    using getEmbeddings_returns by blast
  then show ?thesis
    by (simp add: rag_generateEmbeddings_def Let_def case_prod_beta)
qed

lemma rag_generateEmbeddings_table:
  "documentChunks (snd (rag_generateEmbeddings w text)) = documentChunks w"
  by (simp add: rag_generateEmbeddings_def Let_def split: prod.split)

lemma rag_generateEmbeddings_draws:
  "draws (snd (rag_generateEmbeddings w text)) = draws w"
  by (simp add: rag_generateEmbeddings_def Let_def split: prod.split)

lemma rag_generateEmbeddings_fallback:
  assumes "embeddingsManager w = Some m" and "cache m (cacheKey text) = None"
    and "generateEmbeddings (provider m) (calls m) text = Inl err"
  shows "fst (rag_generateEmbeddings w text) = Inr (SimpleEmbeddings_vector text)"
  using assms
  by (simp add: rag_generateEmbeddings_def getEmbeddings_def
      SimpleEmbeddings_generateEmbeddings_def)

lemma js_slice_map: "js_slice (map f xs) s e = map f (js_slice xs s e)"
  by (simp add: js_slice_def Let_def take_map drop_map)

subsection \<open>The comparator and the sort\<close>

lemma js_greater_irrefl: "\<not> js_greater x x"
  by (cases x) simp_all

lemma js_greater_asym: "js_greater x y \<Longrightarrow> \<not> js_greater y x"
  by (cases x; cases y) simp_all

lemma js_not_greater_trans:
  "y \<noteq> NaN \<Longrightarrow> \<not> js_greater y x \<Longrightarrow> \<not> js_greater z y \<Longrightarrow> \<not> js_greater z x"
  by (cases x; cases y; cases z) simp_all

lemma mset_sort_insert: "mset (sort_insert a bs) = add_mset a (mset bs)"
  by (induction bs) simp_all

lemma mset_sort_by_similarity: "mset (sort_by_similarity xs) = mset xs"
  by (induction xs) (simp_all add: sort_by_similarity_def mset_sort_insert)

lemma set_sort_by_similarity: "set (sort_by_similarity xs) = set xs"
  using mset_sort_by_similarity [of xs] by (metis set_mset_mset)

lemma filter_sort_insert:
  "filter (\<lambda>p. snd p = s) (sort_insert a bs) =
     (if snd a = s then a # filter (\<lambda>p. snd p = s) bs else filter (\<lambda>p. snd p = s) bs)"
proof (induction bs)
  case Nil
  show ?case by simp
next
  case (Cons b bs)
  show ?case
  proof (cases "js_greater (snd b) (snd a)")
    case True
    then have "snd b \<noteq> snd a" using js_greater_irrefl [of "snd a"] by auto
    with True Cons show ?thesis by auto
  next
    case False
    then show ?thesis by simp
  qed
qed

lemma filter_sort_by_similarity:
  "filter (\<lambda>p. snd p = s) (sort_by_similarity xs) = filter (\<lambda>p. snd p = s) xs"
  by (induction xs) (simp_all add: sort_by_similarity_def filter_sort_insert)

lemma sorted_sort_insert:
  assumes "\<forall>p \<in> set bs. snd p \<noteq> NaN"
    and "sorted_wrt (\<lambda>p p'. \<not> js_greater (snd p') (snd p)) bs"
  shows "sorted_wrt (\<lambda>p p'. \<not> js_greater (snd p') (snd p)) (sort_insert a bs)"
  using assms
proof (induction bs)
  case Nil
  show ?case by simp
next
  case (Cons b bs)
  show ?case
  proof (cases "js_greater (snd b) (snd a)")
    case True
    have "\<not> js_greater (snd p) (snd b)" if "p \<in> set (sort_insert a bs)" for p
    proof -
      from that have "p \<in># mset (sort_insert a bs)" by simp
      then have "p = a \<or> p \<in> set bs" by (simp add: mset_sort_insert)
      then show ?thesis using True Cons.prems(2) js_greater_asym by auto
    qed
    moreover have "sorted_wrt (\<lambda>p p'. \<not> js_greater (snd p') (snd p)) (sort_insert a bs)"
      using Cons by simp
    ultimately show ?thesis using True by simp
  next
    case False
    have b: "snd b \<noteq> NaN" using Cons.prems(1) by simp
    have "\<not> js_greater (snd p) (snd a)" if "p \<in> set bs" for p
    proof -
      have "\<not> js_greater (snd p) (snd b)" using that Cons.prems(2) by simp
      with b False show ?thesis by (rule js_not_greater_trans)
    qed
    then show ?thesis using False Cons.prems(2) by simp
  qed
qed

lemma sorted_sort_by_similarity:
  "\<forall>p \<in> set xs. snd p \<noteq> NaN \<Longrightarrow>
   sorted_wrt (\<lambda>p p'. \<not> js_greater (snd p') (snd p)) (sort_by_similarity xs)"
proof (induction xs)
  case Nil
  show ?case by (simp add: sort_by_similarity_def)
next
  case (Cons a xs)
  have "\<forall>p \<in> set (sort_by_similarity xs). snd p \<noteq> NaN"
    using Cons.prems by (simp add: set_sort_by_similarity)
  moreover have "sorted_wrt (\<lambda>p p'. \<not> js_greater (snd p') (snd p)) (sort_by_similarity xs)"
    using Cons by simp
  ultimately have "sorted_wrt (\<lambda>p p'. \<not> js_greater (snd p') (snd p))
      (sort_insert a (sort_by_similarity xs))"
    by (rule sorted_sort_insert)
  then show ?case by (simp add: sort_by_similarity_def)
qed

text \<open>
  The ranking of chunks by a score: the chunks of the sorted list of the pairs of a chunk
  and its score. It is a rearrangement of the chunks, it keeps chunks of one score in
  their order, and where no score is NaN no chunk in it has a greater score than a chunk
  before it.
\<close>

lemma ranking_pairs:
  "sort_by_similarity (map (\<lambda>c. (c, f c)) cs)
   = map (\<lambda>c. (c, f c)) (map fst (sort_by_similarity (map (\<lambda>c. (c, f c)) cs)))"
proof -
  have "(\<lambda>c. (c, f c)) (fst p) = p" if "p \<in> set (sort_by_similarity (map (\<lambda>c. (c, f c)) cs))" for p
    using that by (auto simp: set_sort_by_similarity)
  then have "map ((\<lambda>c. (c, f c)) \<circ> fst) (sort_by_similarity (map (\<lambda>c. (c, f c)) cs))
      = sort_by_similarity (map (\<lambda>c. (c, f c)) cs)"
    by (intro map_idI) simp
  then show ?thesis by simp
qed

lemma ranking_mset:
  "mset (map fst (sort_by_similarity (map (\<lambda>c. (c, f c)) cs))) = mset cs"
proof -
  have "mset (map fst (sort_by_similarity (map (\<lambda>c. (c, f c)) cs)))
        = image_mset fst (mset (map (\<lambda>c. (c, f c)) cs))"
    by (simp add: mset_sort_by_similarity)
  also have "\<dots> = mset (map fst (map (\<lambda>c. (c, f c)) cs))" by (simp only: mset_map)
  also have "\<dots> = mset cs" by (simp add: comp_def)
  finally show ?thesis .
qed

lemma ranking_sorted:
  assumes "\<forall>c \<in> set cs. f c \<noteq> NaN"
  shows "sorted_wrt (\<lambda>a b. \<not> js_greater (f b) (f a))
           (map fst (sort_by_similarity (map (\<lambda>c. (c, f c)) cs)))"
proof -
  let ?ranking = "map fst (sort_by_similarity (map (\<lambda>c. (c, f c)) cs))"
  have "\<forall>p \<in> set (map (\<lambda>c. (c, f c)) cs). snd p \<noteq> NaN" using assms by simp
  then have "sorted_wrt (\<lambda>p p'. \<not> js_greater (snd p') (snd p))
      (sort_by_similarity (map (\<lambda>c. (c, f c)) cs))"
    by (rule sorted_sort_by_similarity)
  then have "sorted_wrt (\<lambda>p p'. \<not> js_greater (snd p') (snd p)) (map (\<lambda>c. (c, f c)) ?ranking)"
    using ranking_pairs [of f cs] by simp
  then show ?thesis by (simp add: sorted_wrt_map)
qed

lemma ranking_stable:
  "filter (\<lambda>c. f c = s) (map fst (sort_by_similarity (map (\<lambda>c. (c, f c)) cs)))
   = filter (\<lambda>c. f c = s) cs"
proof -
  let ?ranking = "map fst (sort_by_similarity (map (\<lambda>c. (c, f c)) cs))"
  have "map (\<lambda>c. (c, f c)) (filter (\<lambda>c. f c = s) ?ranking)
        = filter (\<lambda>p. snd p = s) (map (\<lambda>c. (c, f c)) ?ranking)"
    by (simp add: filter_map comp_def)
  also have "\<dots> = filter (\<lambda>p. snd p = s) (sort_by_similarity (map (\<lambda>c. (c, f c)) cs))"
    using ranking_pairs [of f cs] by simp
  also have "\<dots> = filter (\<lambda>p. snd p = s) (map (\<lambda>c. (c, f c)) cs)"
    by (rule filter_sort_by_similarity)
  also have "\<dots> = map (\<lambda>c. (c, f c)) (filter (\<lambda>c. f c = s) cs)"
    by (simp add: filter_map comp_def)
  finally have "map fst (map (\<lambda>c. (c, f c)) (filter (\<lambda>c. f c = s) ?ranking))
      = map fst (map (\<lambda>c. (c, f c)) (filter (\<lambda>c. f c = s) cs))"
    by simp
  then show ?thesis by (simp add: comp_def)
qed

subsection \<open>What the search returns\<close>

lemma searchChunks_result:
  assumes "fst (rag_generateEmbeddings w query) = Inr q"
    and "toArray h (documentChunks w) = Inr allChunks"
  shows "fst (searchChunks h w query limit) =
           Inr (js_slice (map fst (sort_by_similarity
                  (map (\<lambda>chunk. (chunk, similarity (arithmetic h) q chunk)) allChunks))) 0 limit)"
proof -
  obtain r w' where rw: "rag_generateEmbeddings w query = (r, w')"
    by (cases "rag_generateEmbeddings w query")
  have r: "r = Inr q" using assms(1) rw by simp
  have "documentChunks w' = documentChunks w"
    using rag_generateEmbeddings_table [of w query] rw by simp
  then have t: "toArray h (documentChunks w') = Inr allChunks" using assms(2) by simp
  show ?thesis
    by (simp add: searchChunks_def rw r t Let_def js_slice_map)
qed

lemma searchChunks_failed_table:
  assumes "toArray h (documentChunks w) = Inl err"
  shows "fst (searchChunks h w query limit) = Inr []"
proof -
  obtain r w' where rw: "rag_generateEmbeddings w query = (r, w')"
    by (cases "rag_generateEmbeddings w query")
  have "documentChunks w' = documentChunks w"
    using rag_generateEmbeddings_table [of w query] rw by simp
  then have t: "toArray h (documentChunks w') = Inl err" using assms by simp
  show ?thesis
    by (simp add: searchChunks_def rw t split: sum.split)
qed

lemma searchChunks_returns: "\<exists>rs. fst (searchChunks h w query limit) = Inr rs"
  by (simp add: searchChunks_def Let_def split: prod.split sum.split)

text \<open>
  C2, as the code has it. Let the limit be \<open>k \<ge> 0\<close>, let \<open>q\<close> be the embedding of the
  query and let the table be read as \<open>allChunks\<close>. The score of a chunk is the double
  that \<open>calculateCosineSimilarity\<close> computes from \<open>q\<close> and its vector, and 0 for a chunk
  with no \<open>embeddings\<close> field, which is a candidate like any other. If no score is NaN,
  \<open>searchChunks\<close> returns the first \<open>k\<close> chunks (all, if there are fewer) of the ranking
  of all stored chunks: the rearrangement of \<open>allChunks\<close> in which no chunk has a
  greater score than a chunk before it and chunks of one score keep their order in the
  table. So at most \<open>k\<close> chunks are returned, in the order of non-increasing score, and
  none of them has a smaller score than a stored chunk that is left out.
\<close>

theorem searchChunks_ranked:
  assumes "0 \<le> limit"
    and "fst (rag_generateEmbeddings w query) = Inr q"
    and "toArray h (documentChunks w) = Inr allChunks"
    and "\<forall>chunk \<in> set allChunks. similarity (arithmetic h) q chunk \<noteq> NaN"
  shows "\<exists>ranking.
           fst (searchChunks h w query limit) = Inr (take (nat limit) ranking)
           \<and> int (length (take (nat limit) ranking)) \<le> limit
           \<and> mset ranking = mset allChunks
           \<and> sorted_wrt (\<lambda>a b. \<not> js_greater (similarity (arithmetic h) q b)
                                               (similarity (arithmetic h) q a)) ranking
           \<and> (\<forall>s. filter (\<lambda>chunk. similarity (arithmetic h) q chunk = s) ranking
                    = filter (\<lambda>chunk. similarity (arithmetic h) q chunk = s) allChunks)
           \<and> (\<forall>chunk. embeddings chunk = None \<longrightarrow> similarity (arithmetic h) q chunk = Finite 0)"
proof -
  let ?f = "similarity (arithmetic h) q"
  let ?ranking = "map fst (sort_by_similarity (map (\<lambda>chunk. (chunk, ?f chunk)) allChunks))"
  have res: "fst (searchChunks h w query limit) = Inr (take (nat limit) ?ranking)"
    using searchChunks_result [OF assms(2,3)] assms(1) by (simp add: js_slice_prefix)
  have len: "int (length (take (nat limit) ?ranking)) \<le> limit" using assms(1) by simp
  have perm: "mset ?ranking = mset allChunks" by (rule ranking_mset)
  have ord: "sorted_wrt (\<lambda>a b. \<not> js_greater (?f b) (?f a)) ?ranking"
    using assms(4) by (rule ranking_sorted)
  have stable: "\<forall>s. filter (\<lambda>chunk. ?f chunk = s) ?ranking = filter (\<lambda>chunk. ?f chunk = s) allChunks"
    by (simp add: ranking_stable)
  have zero: "\<forall>chunk. embeddings chunk = None \<longrightarrow> ?f chunk = Finite 0"
    by (simp add: similarity_def)
  show ?thesis
    by (rule exI [of _ ?ranking]) (intro conjI res len perm ord stable zero)
qed

lemma fresh_embedding:
  "fst (rag_generateEmbeddings (fresh_world table) text) = Inr (SimpleEmbeddings_vector text)"
  by (simp add: rag_generateEmbeddings_def fresh_world_def getEmbeddings_def
      new_EmbeddingsManager_def SimpleEmbeddings_def SimpleEmbeddings_generateEmbeddings_def)

lemma constant_embedding:
  "fst (rag_generateEmbeddings (managed_world (constant_provider v) table) text) = Inr v"
  by (simp add: rag_generateEmbeddings_def managed_world_def getEmbeddings_def
      new_EmbeddingsManager_def constant_provider_def)

lemma bare_similarity: "similarity ar q (bare_chunk i) = Finite 0"
  by (simp add: similarity_def bare_chunk_def)

lemma example_scores:
  "similarity unrounded [1, 0] (vector_chunk 2 [0, 1]) = Finite 0"
  "similarity unrounded [1, 0] (vector_chunk 3 [1, 0]) = Finite 1"
  "similarity unrounded [1, 0] (vector_chunk 4 [- 1, 0]) = Finite (- 1)"
  by (simp_all add: similarity_def vector_chunk_def calculateCosineSimilarity_def
      unrounded_def overflow_def)

lemma overflow_score:
  "similarity unrounded [2, 0] (vector_chunk 5 huge_vector) = NaN"
  by (simp add: similarity_def vector_chunk_def calculateCosineSimilarity_def
      unrounded_def overflow_def huge_vector_def)

lemma unit_score: "similarity unrounded [2, 0] (vector_chunk 6 [1, 0]) = Finite 1"
  by (simp add: similarity_def vector_chunk_def calculateCosineSimilarity_def
      unrounded_def overflow_def)

theorem searchChunks_ranked_witness:
  "(0::int) \<le> 2
   \<and> fst (rag_generateEmbeddings
        (managed_world (constant_provider [1, 0])
           [bare_chunk 0, vector_chunk 2 [0, 1], vector_chunk 3 [1, 0], vector_chunk 4 [- 1, 0]])
        ''which document mentions flight'') = Inr [1, 0]
   \<and> similarity unrounded [1, 0] (bare_chunk 0) = Finite 0
   \<and> similarity unrounded [1, 0] (vector_chunk 2 [0, 1]) = Finite 0
   \<and> similarity unrounded [1, 0] (vector_chunk 3 [1, 0]) = Finite 1
   \<and> similarity unrounded [1, 0] (vector_chunk 4 [- 1, 0]) = Finite (- 1)
   \<and> (\<exists>ranking.
         fst (searchChunks (list_host 10)
                (managed_world (constant_provider [1, 0])
                   [bare_chunk 0, vector_chunk 2 [0, 1], vector_chunk 3 [1, 0],
                    vector_chunk 4 [- 1, 0]])
                ''which document mentions flight'' 2) = Inr (take (nat 2) ranking)
         \<and> mset ranking
           = mset [bare_chunk 0, vector_chunk 2 [0, 1], vector_chunk 3 [1, 0],
                   vector_chunk 4 [- 1, 0]]
         \<and> sorted_wrt (\<lambda>a b. \<not> js_greater (similarity unrounded [1, 0] b)
                                             (similarity unrounded [1, 0] a)) ranking)
   \<and> fst (searchChunks (list_host 10)
            (managed_world (constant_provider [1, 0])
               [bare_chunk 0, vector_chunk 2 [0, 1], vector_chunk 3 [1, 0],
                vector_chunk 4 [- 1, 0]])
            ''which document mentions flight'' 2) = Inr [vector_chunk 3 [1, 0], bare_chunk 0]"
proof -
  let ?rows = "[bare_chunk 0, vector_chunk 2 [0, 1], vector_chunk 3 [1, 0], vector_chunk 4 [- 1, 0]]"
  let ?w = "managed_world (constant_provider [1, 0]) ?rows"
  let ?query = "''which document mentions flight''"
  have a: "(0::int) \<le> 2" by simp
  have b: "fst (rag_generateEmbeddings ?w ?query) = Inr [1, 0]" by (rule constant_embedding)
  have c: "toArray (list_host 10) (documentChunks ?w) = Inr ?rows"
    by (simp add: list_host_def managed_world_def)
  have ar: "arithmetic (list_host 10) = unrounded" by (simp add: list_host_def)
  have d: "\<forall>chunk \<in> set ?rows. similarity (arithmetic (list_host 10)) [1, 0] chunk \<noteq> NaN"
    by (simp add: ar bare_similarity example_scores)
  have "\<exists>ranking.
         fst (searchChunks (list_host 10) ?w ?query 2) = Inr (take (nat 2) ranking)
         \<and> mset ranking = mset ?rows
         \<and> sorted_wrt (\<lambda>a b. \<not> js_greater (similarity unrounded [1, 0] b)
                                             (similarity unrounded [1, 0] a)) ranking"
    using searchChunks_ranked [OF a b c d] unfolding ar by blast
  moreover have "fst (searchChunks (list_host 10) ?w ?query 2)
      = Inr [vector_chunk 3 [1, 0], bare_chunk 0]"
    using searchChunks_result [OF b c, of 2]
    by (simp add: ar js_slice_def sort_by_similarity_def bare_similarity example_scores)
  ultimately show ?thesis using a b bare_similarity [of unrounded "[1, 0]" 0] example_scores
    by blast
qed

text \<open>
  C2 as stated fails three times. A stored chunk with no \<open>embeddings\<close> field is scored 0
  and returned. With the limit \<open>-1\<close>, \<open>slice(0, -1)\<close> drops the last of three chunks and
  returns two. And a score can be NaN: for the query vector \<open>[2, 0]\<close> and the stored
  vector \<open>[2 ^ 1023, 0]\<close>, whose components are doubles, the dot product and one norm overflow, the score is infinity
  divided by infinity, and the chunk is returned before a chunk of score 1.
\<close>

theorem vectorless_chunk_counterexample:
  "embeddings (bare_chunk 0) = None
   \<and> fst (searchChunks (list_host 10) (fresh_world [bare_chunk 0])
           ''which document mentions flight'' 1) = Inr [bare_chunk 0]
   \<and> fst (searchChunks (list_host 10) (fresh_world [bare_chunk 0, bare_chunk 1, bare_chunk 2])
           ''which document mentions flight'' (- 1)) = Inr [bare_chunk 0, bare_chunk 1]
   \<and> similarity unrounded [2, 0] (vector_chunk 5 huge_vector) = NaN
   \<and> similarity unrounded [2, 0] (vector_chunk 6 [1, 0]) = Finite 1
   \<and> fst (searchChunks (list_host 10)
           (managed_world (constant_provider [2, 0])
              [vector_chunk 5 huge_vector, vector_chunk 6 [1, 0]])
           ''which document mentions flight'' 2)
     = Inr [vector_chunk 5 huge_vector, vector_chunk 6 [1, 0]]"
proof -
  let ?query = "''which document mentions flight''"
  let ?w = "managed_world (constant_provider [2, 0]) [vector_chunk 5 huge_vector, vector_chunk 6 [1, 0]]"
  have ar: "arithmetic (list_host 10) = unrounded" by (simp add: list_host_def)
  have one: "toArray (list_host 10) (documentChunks (fresh_world [bare_chunk 0])) = Inr [bare_chunk 0]"
    by (simp add: list_host_def fresh_world_def)
  have three: "toArray (list_host 10) (documentChunks (fresh_world [bare_chunk 0, bare_chunk 1, bare_chunk 2]))
      = Inr [bare_chunk 0, bare_chunk 1, bare_chunk 2]"
    by (simp add: list_host_def fresh_world_def)
  have two: "toArray (list_host 10) (documentChunks ?w)
      = Inr [vector_chunk 5 huge_vector, vector_chunk 6 [1, 0]]"
    by (simp add: list_host_def managed_world_def)
  have r1: "fst (searchChunks (list_host 10) (fresh_world [bare_chunk 0]) ?query 1) = Inr [bare_chunk 0]"
    using searchChunks_result [OF fresh_embedding one, of ?query 1]
    by (simp add: js_slice_def sort_by_similarity_def)
  have r2: "fst (searchChunks (list_host 10) (fresh_world [bare_chunk 0, bare_chunk 1, bare_chunk 2])
           ?query (- 1)) = Inr [bare_chunk 0, bare_chunk 1]"
    using searchChunks_result [OF fresh_embedding three, of ?query "- 1"]
    by (simp add: js_slice_def sort_by_similarity_def bare_similarity)
  have r3: "fst (searchChunks (list_host 10) ?w ?query 2)
      = Inr [vector_chunk 5 huge_vector, vector_chunk 6 [1, 0]]"
    using searchChunks_result [OF constant_embedding two, of ?query 2]
    by (simp add: ar js_slice_def sort_by_similarity_def overflow_score unit_score)
  have e: "embeddings (bare_chunk 0) = None" by (simp add: bare_chunk_def)
  from e r1 r2 overflow_score unit_score r3 show ?thesis by simp
qed

text \<open>
  C9, as the code has it. \<open>searchChunks\<close> never returns an error. When reading the table
  fails, the \<open>catch\<close> logs the error and the result is the empty list. When the call of
  the manager's provider fails, the manager answers with the vector of the hash
  provider, and the search goes on with it: the result is the ranking of the stored
  chunks by their scores against that vector, cut at the limit.
\<close>

theorem searchChunks_swallows_errors:
  "(\<exists>rs. fst (searchChunks h w query limit) = Inr rs)
   \<and> (toArray h (documentChunks w) = Inl err \<longrightarrow> fst (searchChunks h w query limit) = Inr [])
   \<and> (embeddingsManager w = Some m \<and> cache m (cacheKey query) = None
        \<and> generateEmbeddings (provider m) (calls m) query = Inl err'
        \<and> toArray h (documentChunks w) = Inr allChunks \<longrightarrow>
      fst (searchChunks h w query limit)
        = Inr (js_slice (map fst (sort_by_similarity
                 (map (\<lambda>chunk. (chunk, similarity (arithmetic h) (SimpleEmbeddings_vector query) chunk))
                    allChunks))) 0 limit))"
proof (intro conjI impI)
  show "\<exists>rs. fst (searchChunks h w query limit) = Inr rs" by (rule searchChunks_returns)
next
  assume "toArray h (documentChunks w) = Inl err"
  then show "fst (searchChunks h w query limit) = Inr []" by (rule searchChunks_failed_table)
next
  assume a: "embeddingsManager w = Some m \<and> cache m (cacheKey query) = None
        \<and> generateEmbeddings (provider m) (calls m) query = Inl err'
        \<and> toArray h (documentChunks w) = Inr allChunks"
  then have "fst (rag_generateEmbeddings w query) = Inr (SimpleEmbeddings_vector query)"
    by (intro rag_generateEmbeddings_fallback [of w m query err']) simp_all
  then show "fst (searchChunks h w query limit)
        = Inr (js_slice (map fst (sort_by_similarity
                 (map (\<lambda>chunk. (chunk, similarity (arithmetic h) (SimpleEmbeddings_vector query) chunk))
                    allChunks))) 0 limit)"
    using a by (intro searchChunks_result) simp_all
qed

theorem searchChunks_swallows_errors_witness:
  "toArray closed_host (documentChunks (fresh_world [vector_chunk 6 [1, 0]]))
     = Inl (Error ''DatabaseClosedError'')
   \<and> fst (searchChunks closed_host (fresh_world [vector_chunk 6 [1, 0]]) ''birds'' 5) = Inr []
   \<and> generateEmbeddings unauthorized_provider 0 ''birds''
     = Inl (Error ''OpenAI API error: Unauthorized'')
   \<and> fst (searchChunks (list_host 10)
           (managed_world unauthorized_provider [bare_chunk 0, bare_chunk 1]) ''birds'' 5)
     = Inr [bare_chunk 0, bare_chunk 1]"
proof -
  let ?w1 = "fresh_world [vector_chunk 6 [1, 0]]"
  let ?w2 = "managed_world unauthorized_provider [bare_chunk 0, bare_chunk 1]"
  let ?m = "new_EmbeddingsManager unauthorized_provider"
  have a: "toArray closed_host (documentChunks ?w1) = Inl (Error ''DatabaseClosedError'')"
    by (simp add: closed_host_def fresh_world_def)
  have "toArray closed_host (documentChunks ?w1) = Inl (Error ''DatabaseClosedError'')
        \<longrightarrow> fst (searchChunks closed_host ?w1 ''birds'' 5) = Inr []"
    using searchChunks_swallows_errors [of closed_host ?w1 "''birds''" 5
        "Error ''DatabaseClosedError''"]
    by (rule conjunct1 [OF conjunct2])
  then have b: "fst (searchChunks closed_host ?w1 ''birds'' 5) = Inr []"
    using a by (rule mp)
  have c: "generateEmbeddings unauthorized_provider 0 ''birds''
      = Inl (Error ''OpenAI API error: Unauthorized'')"
    by (simp add: unauthorized_provider_def)
  have pre: "embeddingsManager ?w2 = Some ?m \<and> cache ?m (cacheKey ''birds'') = None
        \<and> generateEmbeddings (provider ?m) (calls ?m) ''birds''
            = Inl (Error ''OpenAI API error: Unauthorized'')
        \<and> toArray (list_host 10) (documentChunks ?w2) = Inr [bare_chunk 0, bare_chunk 1]"
    by (simp add: managed_world_def new_EmbeddingsManager_def unauthorized_provider_def
        list_host_def)
  have "embeddingsManager ?w2 = Some ?m \<and> cache ?m (cacheKey ''birds'') = None
        \<and> generateEmbeddings (provider ?m) (calls ?m) ''birds''
            = Inl (Error ''OpenAI API error: Unauthorized'')
        \<and> toArray (list_host 10) (documentChunks ?w2) = Inr [bare_chunk 0, bare_chunk 1] \<longrightarrow>
      fst (searchChunks (list_host 10) ?w2 ''birds'' 5)
        = Inr (js_slice (map fst (sort_by_similarity
                 (map (\<lambda>chunk. (chunk, similarity (arithmetic (list_host 10))
                                         (SimpleEmbeddings_vector ''birds'') chunk))
                    [bare_chunk 0, bare_chunk 1]))) 0 5)"
    using searchChunks_swallows_errors [of "list_host 10" ?w2 "''birds''" 5 _ ?m
        "Error ''OpenAI API error: Unauthorized''" "[bare_chunk 0, bare_chunk 1]"]
    by (rule conjunct2 [OF conjunct2])
  then have "fst (searchChunks (list_host 10) ?w2 ''birds'' 5)
        = Inr (js_slice (map fst (sort_by_similarity
                 (map (\<lambda>chunk. (chunk, similarity (arithmetic (list_host 10))
                                         (SimpleEmbeddings_vector ''birds'') chunk))
                    [bare_chunk 0, bare_chunk 1]))) 0 5)"
    using pre by (rule mp)
  then have d: "fst (searchChunks (list_host 10) ?w2 ''birds'' 5) = Inr [bare_chunk 0, bare_chunk 1]"
    by (simp add: js_slice_def sort_by_similarity_def bare_similarity)
  from a b c d show ?thesis by simp
qed

text \<open>
  C9 as stated fails on a table that cannot be read: the caller gets \<open>[]\<close>, as for a
  query that matches nothing. A provider that throws is not surfaced either: the
  manager falls back to the hash provider, and the search returns its ranking.
\<close>

theorem failed_search_counterexample:
  "toArray closed_host (documentChunks (fresh_world [bare_chunk 0]))
     = Inl (Error ''DatabaseClosedError'')
   \<and> fst (searchChunks closed_host (fresh_world [bare_chunk 0])
           ''which document mentions flight'' 5) = Inr []
   \<and> generateEmbeddings unauthorized_provider 0 ''which document mentions flight''
     = Inl (Error ''OpenAI API error: Unauthorized'')
   \<and> fst (searchChunks (list_host 10) (managed_world unauthorized_provider [bare_chunk 0])
           ''which document mentions flight'' 5) = Inr [bare_chunk 0]"
proof -
  let ?query = "''which document mentions flight''"
  let ?w = "managed_world unauthorized_provider [bare_chunk 0]"
  have a: "toArray closed_host (documentChunks (fresh_world [bare_chunk 0]))
     = Inl (Error ''DatabaseClosedError'')"
    by (simp add: closed_host_def fresh_world_def)
  have b: "fst (searchChunks closed_host (fresh_world [bare_chunk 0]) ?query 5) = Inr []"
    using a by (rule searchChunks_failed_table)
  have c: "generateEmbeddings unauthorized_provider 0 ?query
     = Inl (Error ''OpenAI API error: Unauthorized'')"
    by (simp add: unauthorized_provider_def)
  have e: "fst (rag_generateEmbeddings ?w ?query) = Inr (SimpleEmbeddings_vector ?query)"
    by (simp add: rag_generateEmbeddings_def getEmbeddings_def new_EmbeddingsManager_def
        managed_world_def unauthorized_provider_def SimpleEmbeddings_generateEmbeddings_def)
  have t: "toArray (list_host 10) (documentChunks ?w) = Inr [bare_chunk 0]"
    by (simp add: list_host_def managed_world_def)
  have d: "fst (searchChunks (list_host 10) ?w ?query 5) = Inr [bare_chunk 0]"
    using searchChunks_result [OF e t, of 5] by (simp add: js_slice_def sort_by_similarity_def)
  from a b c d show ?thesis by simp
qed

section \<open>Ingestion\<close>

text \<open>\<open>processDocument\<close> does not return for a document whose content is not empty.\<close>

theorem processDocument_never_returns:
  "document_content document \<noteq> [] \<Longrightarrow> \<forall>fuel. processDocument fuel h document w = None"
  by (simp add: processDocument_def chunkText_positive_overlap)

theorem processDocument_never_returns_witness:
  "document_content birds_document \<noteq> []
   \<and> (\<forall>fuel. processDocument fuel (list_host 10) birds_document (fresh_world []) = None)"
  using processDocument_never_returns [of birds_document "list_host 10" "fresh_world []"]
  by (simp add: birds_document_def)





text \<open>
  The loop \<open>storeChunks\<close> is entered with chunks only by a chunker that returns for a
  content that is not empty. For such a chunk list it would stop at the first row that
  the table refuses, with the rows before it stored.
\<close>

lemma storeChunks_append:
  "storeChunks h document (pre @ post) i w =
     (if fst (storeChunks h document pre i w) = Inr ()
      then storeChunks h document post (i + length pre) (snd (storeChunks h document pre i w))
      else storeChunks h document pre i w)"
proof (induction pre arbitrary: i w)
  case Nil
  show ?case by simp
next
  case (Cons chunk pre)
  show ?case
    by (simp add: Cons.IH split: prod.split sum.split)
qed

lemma storeChunks_add_fails:
  assumes "fst (rag_generateEmbeddings w chunk) = Inr emb"
    and "add h (documentChunks w) (new_chunk h document chunk emb i (draws w)) = Inl err"
  shows "fst (storeChunks h document (chunk # post) i w) = Inl err
       \<and> documentChunks (snd (storeChunks h document (chunk # post) i w)) = documentChunks w"
proof -
  obtain r w1 where rw: "rag_generateEmbeddings w chunk = (r, w1)"
    by (cases "rag_generateEmbeddings w chunk")
  have r: "r = Inr emb" using assms(1) rw by simp
  have t: "documentChunks w1 = documentChunks w"
    using rag_generateEmbeddings_table [of w chunk] rw by simp
  have d: "draws w1 = draws w"
    using rag_generateEmbeddings_draws [of w chunk] rw by simp
  show ?thesis using assms(2) by (simp add: rw r t d)
qed

end
